theory Spec2Isabelle
  imports Main "HOL-Library.Char_ord" "HOL-Library.List_Lexorder"
    "HOL-Library.Product_Lexorder" "HOL-Library.Sublist"
begin

section \<open>Strings: the Python string methods used by \<open>app.py\<close>\<close>

text \<open>
  Strings are \<^typ>\<open>string\<close>, read as ASCII text. Case conversion acts on the 26 ASCII
  letters; every other character has no case. Whitespace is what \<open>str.isspace\<close> and the
  regular expression \<open>\s\<close> accept in the ASCII range: tab, line feed, vertical tab, form
  feed, carriage return, the four separators 0x1C..0x1F and the space.
\<close>

definition is_space :: "char \<Rightarrow> bool" where
  "is_space c = (c \<in> set [CHR 0x09, CHR 0x0A, CHR 0x0B, CHR 0x0C, CHR 0x0D,
                          CHR 0x1C, CHR 0x1D, CHR 0x1E, CHR 0x1F, CHR '' ''])"

definition lower_letters :: string where
  "lower_letters = ''abcdefghijklmnopqrstuvwxyz''"

definition upper_letters :: string where
  "upper_letters = ''ABCDEFGHIJKLMNOPQRSTUVWXYZ''"

definition is_alpha :: "char \<Rightarrow> bool" where
  "is_alpha c = (c \<in> set lower_letters \<or> c \<in> set upper_letters)"

definition upper_char :: "char \<Rightarrow> char" where
  "upper_char c = (case map_of (zip lower_letters upper_letters) c of Some u \<Rightarrow> u | None \<Rightarrow> c)"

definition lower_char :: "char \<Rightarrow> char" where
  "lower_char c = (case map_of (zip upper_letters lower_letters) c of Some l \<Rightarrow> l | None \<Rightarrow> c)"

text \<open>\<open>s.upper()\<close> and \<open>s.lower()\<close>.\<close>

definition str_upper :: "string \<Rightarrow> string" where
  "str_upper s = map upper_char s"

definition str_lower :: "string \<Rightarrow> string" where
  "str_lower s = map lower_char s"

text \<open>\<open>s.strip()\<close>: whitespace is removed at both ends.\<close>

definition str_strip :: "string \<Rightarrow> string" where
  "str_strip s = rev (dropWhile is_space (rev (dropWhile is_space s)))"

text \<open>
  \<open>s.title()\<close>: a letter is upper-cased when the character before it is not a letter
  (or there is none) and lower-cased otherwise; other characters are kept.
\<close>

fun title_from :: "bool \<Rightarrow> string \<Rightarrow> string" where
  "title_from prev_cased [] = []"
| "title_from prev_cased (c # cs) =
     (if is_alpha c
      then (if prev_cased then lower_char c else upper_char c) # title_from True cs
      else c # title_from False cs)"

definition str_title :: "string \<Rightarrow> string" where
  "str_title s = title_from False s"

text \<open>
  \<open>re.sub(r"\s+", " ", s)\<close>: every maximal run of whitespace becomes one space. The flag
  says whether the scan is inside a run whose space has already been written.
\<close>

fun collapse_from :: "bool \<Rightarrow> string \<Rightarrow> string" where
  "collapse_from in_run [] = []"
| "collapse_from in_run (c # cs) =
     (if is_space c
      then (if in_run then collapse_from True cs else CHR '' '' # collapse_from True cs)
      else c # collapse_from False cs)"

definition collapse_ws :: "string \<Rightarrow> string" where
  "collapse_ws s = collapse_from False s"

text \<open>
  \<open>s.replace(old, new)\<close>: the occurrences of \<open>old\<close> are replaced from left to right,
  without overlap; an empty \<open>old\<close> matches before every character and at the end.
\<close>

fun str_replace :: "string \<Rightarrow> string \<Rightarrow> string \<Rightarrow> string" where
  "str_replace old new [] = (if old = [] then new else [])"
| "str_replace old new (c # cs) =
     (if old = [] then new @ c # str_replace old new cs
      else if prefix old (c # cs) then new @ str_replace old new (drop (length old) (c # cs))
      else c # str_replace old new cs)"

text \<open>\<open>sorted(set(xs))\<close>: the distinct elements in ascending order.\<close>

definition sorted_set :: "'a::linorder list \<Rightarrow> 'a list" where
  "sorted_set xs = sort (remdups xs)"

section \<open>Regular expressions: what \<open>Series.str.contains\<close> compiles\<close>

text \<open>
  \<open>Series.str.contains(pat, case=False, na=False)\<close> leaves \<open>regex\<close> at its default
  \<open>True\<close>: the pattern is compiled with \<open>re.compile(pat, re.IGNORECASE)\<close> and an element
  matches when \<open>search\<close> finds the pattern anywhere in it. \<open>re_special\<close> are the characters
  with a meaning in a pattern. A pattern without them is a literal; the dot stands for
  any character but the line feed. Patterns using any other special character are left
  to \<open>re_other\<close>, a parameter that stands for the rest of the \<open>re\<close> library: it returns the
  matcher of a pattern, or \<open>None\<close> where \<open>re.compile\<close> raises \<open>re.error\<close>.
\<close>

type_synonym re_lib = "string \<Rightarrow> (string \<Rightarrow> bool) option"

definition re_special :: string where
  "re_special = [CHR ''.'', CHR ''^'', CHR ''$'', CHR ''*'', CHR ''+'', CHR ''?'', CHR ''{'',
     CHR ''}'', CHR ''['', CHR '']'', CHR 0x5C, CHR ''|'', CHR ''('', CHR '')'']"

definition char_match :: "char \<Rightarrow> char \<Rightarrow> bool" where
  "char_match p c = (if p = CHR ''.'' then c \<noteq> CHR 0x0A else lower_char p = lower_char c)"

fun match_here :: "string \<Rightarrow> string \<Rightarrow> bool" where
  "match_here [] t = True"
| "match_here (p # ps) [] = False"
| "match_here (p # ps) (c # cs) = (char_match p c \<and> match_here ps cs)"

fun re_search :: "string \<Rightarrow> string \<Rightarrow> bool" where
  "re_search pat [] = match_here pat []"
| "re_search pat (c # cs) = (match_here pat (c # cs) \<or> re_search pat cs)"

definition re_compile :: "re_lib \<Rightarrow> string \<Rightarrow> (string \<Rightarrow> bool) option" where
  "re_compile re_other pat =
     (if list_all (\<lambda>c. c = CHR ''.'' \<or> c \<notin> set re_special) pat
      then Some (re_search pat)
      else re_other pat)"

section \<open>Data frames\<close>

text \<open>
  A cell is \<open>None\<close> for a missing value (NaN, \<open>None\<close>) and \<open>Some s\<close> for a value whose text
  \<open>str(v)\<close> is \<open>s\<close>. A row gives the cell of every column name; a frame lists its column
  names and its rows. What a row holds under a name that is not a column of the frame is
  never read. \<open>read_csv\<close> makes the column names of a file distinct; a file in which two
  names differ only in letter case or surrounding blanks, so that they meet once
  normalised, is outside the model, and the theorem about loading assumes there is none.
\<close>

type_synonym cell = "string option"
type_synonym series = "cell list"
type_synonym row = "string \<Rightarrow> cell"

record dataframe =
  columns :: "string list"
  rows :: "row list"

datatype error = KeyError string | ReError string

text \<open>Sequencing: the first error raised ends the computation.\<close>

definition ebind :: "error + 'a \<Rightarrow> ('a \<Rightarrow> error + 'b) \<Rightarrow> error + 'b" where
  "ebind m f = (case m of Inl e \<Rightarrow> Inl e | Inr x \<Rightarrow> f x)"

text \<open>\<open>pd.DataFrame()\<close>, \<open>df.empty\<close>, \<open>df[c]\<close>, \<open>c in df\<close> and \<open>s.dropna()\<close>.\<close>

definition empty_frame :: dataframe where
  "empty_frame = \<lparr>columns = [], rows = []\<rparr>"

definition df_empty :: "dataframe \<Rightarrow> bool" where
  "df_empty df = (columns df = [] \<or> rows df = [])"

definition has_col :: "dataframe \<Rightarrow> string \<Rightarrow> bool" where
  "has_col df c = (c \<in> set (columns df))"

definition getcol :: "dataframe \<Rightarrow> string \<Rightarrow> error + series" where
  "getcol df c = (if has_col df c then Inr (map (\<lambda>r. r c) (rows df)) else Inl (KeyError c))"

definition dropna :: "series \<Rightarrow> string list" where
  "dropna s = List.map_filter (\<lambda>v. v) s"

text \<open>\<open>s.unique()\<close>: the distinct values in order of first appearance.\<close>

definition unique :: "'a list \<Rightarrow> 'a list" where
  "unique xs = rev (remdups (rev xs))"

text \<open>\<open>df[mask]\<close>: the rows whose mask entry is true.\<close>

definition boolean_index :: "dataframe \<Rightarrow> bool list \<Rightarrow> dataframe" where
  "boolean_index df msk = df\<lparr>rows := map fst (filter snd (zip (rows df) msk))\<rparr>"

text \<open>\<open>df[c] = df[c].apply(f)\<close> and its elementwise relatives: column \<open>c\<close> is rewritten.\<close>

definition apply_col :: "string \<Rightarrow> (cell \<Rightarrow> cell) \<Rightarrow> dataframe \<Rightarrow> dataframe" where
  "apply_col c f df = df\<lparr>rows := map (\<lambda>r. r(c := f (r c))) (rows df)\<rparr>"

text \<open>\<open>df.columns = df.columns.map(f)\<close>: the cells stay, the names change.\<close>

definition rename_columns :: "(string \<Rightarrow> string) \<Rightarrow> dataframe \<Rightarrow> dataframe" where
  "rename_columns f df =
     \<lparr>columns = map f (columns df),
      rows = map (\<lambda>r k. case find (\<lambda>c. f c = k) (columns df) of
                           None \<Rightarrow> None | Some c \<Rightarrow> r c) (rows df)\<rparr>"

text \<open>
  \<open>s.astype(str)\<close> on one cell. A value becomes its text. What becomes of a missing value
  depends on the pandas that runs the program, and the repository pins none: before
  pandas 3.0 the column holds Python strings and the missing value becomes the text
  \<open>nan\<close>; from pandas 3.0 the column has the \<open>str\<close> dtype and the missing value stays
  missing. \<open>astype_mode\<close> says which of the two the library does.
\<close>

datatype astype_mode = NaAsText | NaKept

definition astype_str :: "astype_mode \<Rightarrow> cell \<Rightarrow> cell" where
  "astype_str na_mode v =
     (case v of
        None \<Rightarrow> (case na_mode of NaAsText \<Rightarrow> Some ''nan'' | NaKept \<Rightarrow> None)
      | Some s \<Rightarrow> Some s)"

text \<open>A method of the \<open>.str\<close> accessor on one cell: a missing element stays missing.\<close>

definition str_method :: "(string \<Rightarrow> string) \<Rightarrow> cell \<Rightarrow> cell" where
  "str_method f v = map_option f v"

section \<open>\<open>load_timetable\<close>\<close>

definition clean_hall_name :: "cell \<Rightarrow> cell" where
  "clean_hall_name name =
     (case name of
        None \<Rightarrow> None
      | Some v \<Rightarrow>
          (let name = str_upper v;
               name = collapse_ws name;
               name = str_replace '' )'' '')'' (str_replace ''( '' ''('' name);
               name = str_replace ''E B'' ''EB'' (str_replace ''A B'' ''AB'' name)
           in Some (str_strip name)))"

text \<open>
  The second argument is the frame \<open>pd.read_csv\<close> returned, or \<open>None\<close> when the file does
  not exist; the first is what \<open>astype(str)\<close> does with a missing value.
\<close>

definition load_timetable :: "astype_mode \<Rightarrow> dataframe option \<Rightarrow> dataframe" where
  "load_timetable na_mode src =
     (case src of
        None \<Rightarrow> empty_frame
      | Some raw \<Rightarrow>
          (let df = rename_columns (\<lambda>c. str_title (str_strip c)) raw;
               df = (if has_col df ''Lecture Hall''
                     then apply_col ''Lecture Hall'' clean_hall_name df else df);
               df = (if has_col df ''Day''
                     then apply_col ''Day''
                            (\<lambda>v. str_method str_title (str_method str_strip (astype_str na_mode v))) df
                     else df);
               df = (if has_col df ''Time''
                     then apply_col ''Time'' (\<lambda>v. str_method str_strip (astype_str na_mode v)) df
                     else df)
           in df))"

section \<open>\<open>get_free_halls\<close>\<close>

text \<open>\<open>s.str.contains(pat, case=False, na=False)\<close>: a missing element counts as no match.\<close>

definition str_contains :: "re_lib \<Rightarrow> series \<Rightarrow> string \<Rightarrow> error + bool list" where
  "str_contains re_other s pat =
     (case re_compile re_other pat of
        None \<Rightarrow> Inl (ReError pat)
      | Some m \<Rightarrow> Inr (map (\<lambda>v. case v of None \<Rightarrow> False | Some t \<Rightarrow> m t) s))"

definition get_free_halls ::
  "re_lib \<Rightarrow> dataframe \<Rightarrow> string \<Rightarrow> string \<Rightarrow> error + (string list \<times> string list)" where
  "get_free_halls re_other df day time =
     (if df_empty df then Inr ([], [])
      else
        let day = str_title (str_strip day);
            time = str_strip time
        in ebind (getcol df ''Day'') (\<lambda>day_col.
           ebind (getcol df ''Time'') (\<lambda>time_col.
           ebind (str_contains re_other time_col time) (\<lambda>hits.
           let occupied = boolean_index df (map2 (\<and>) (map (\<lambda>v. v = Some day) day_col) hits)
           in ebind (getcol occupied ''Lecture Hall'') (\<lambda>occ.
              let occupied_halls = sorted_set (dropna occ)
              in ebind (getcol df ''Lecture Hall'') (\<lambda>halls.
                 let all_halls = sorted_set (dropna halls);
                     free_halls = sorted_set (filter (\<lambda>h. h \<notin> set occupied_halls) all_halls)
                 in Inr (free_halls, occupied_halls)))))))"

section \<open>\<open>detect_conflicts\<close>\<close>

text \<open>
  \<open>df.groupby(["Day", "Time", "Lecture Hall"])\<close> keeps \<open>dropna\<close> and \<open>sort\<close> at their defaults:
  a row with a missing value in a key column belongs to no group, and the groups come in
  ascending order of their keys. A missing key column raises \<open>KeyError\<close>.
\<close>

type_synonym slot = "string \<times> string \<times> string"

definition row_key :: "row \<Rightarrow> slot option" where
  "row_key r =
     (case (r ''Day'', r ''Time'', r ''Lecture Hall'') of
        (Some d, Some t, Some h) \<Rightarrow> Some (d, t, h)
      | _ \<Rightarrow> None)"

definition group_rows :: "row list \<Rightarrow> slot \<Rightarrow> row list" where
  "group_rows rs k = filter (\<lambda>r. row_key r = Some k) rs"

definition groupby :: "dataframe \<Rightarrow> error + (slot \<times> row list) list" where
  "groupby df =
     (case filter (\<lambda>c. \<not> has_col df c) [''Day'', ''Time'', ''Lecture Hall''] of
        c # _ \<Rightarrow> Inl (KeyError c)
      | [] \<Rightarrow> Inr (map (\<lambda>k. (k, group_rows (rows df) k))
                     (sorted_set (List.map_filter row_key (rows df)))))"

text \<open>
  \<open>pd.merge(df, conflicts[keys], on=keys, how="inner")\<close>, the keys of \<open>conflicts\<close> being
  distinct and free of missing values: the rows of \<open>df\<close> whose key is one of them.
\<close>

definition merge_inner :: "dataframe \<Rightarrow> slot list \<Rightarrow> dataframe" where
  "merge_inner df ks =
     df\<lparr>rows := filter (\<lambda>r. case row_key r of None \<Rightarrow> False | Some k \<Rightarrow> k \<in> set ks) (rows df)\<rparr>"

text \<open>One dictionary of the result: Day, Time, Lecture Hall and the list under Course Code.\<close>

record conflict =
  c_day :: string
  c_time :: string
  c_hall :: string
  c_courses :: "cell list"

definition mk_conflict :: "slot \<Rightarrow> cell list \<Rightarrow> conflict" where
  "mk_conflict k cs =
     (case k of (d, t, h) \<Rightarrow> \<lparr>c_day = d, c_time = t, c_hall = h, c_courses = cs\<rparr>)"

definition detect_conflicts :: "dataframe \<Rightarrow> error + conflict list" where
  "detect_conflicts df =
     (if df_empty df then Inr []
      else
        ebind (groupby df) (\<lambda>groups.
        let counts = map (\<lambda>(k, g). (k, length g)) groups;
            conflicts = filter (\<lambda>(k, n). 1 < n) counts
        in if conflicts = [] then Inr []
           else
             let details = merge_inner df (map fst conflicts)
             in ebind (groupby details) (\<lambda>grouped.
                if has_col details ''Course Code''
                then Inr (map (\<lambda>(k, g). mk_conflict k (map (\<lambda>r. r ''Course Code'') g)) grouped)
                else Inl (KeyError ''Course Code''))))"

section \<open>Usage statistics: \<open>chart_data\<close> and the figures of \<open>index\<close>\<close>

text \<open>
  \<open>s.value_counts()\<close>: missing values are dropped, the distinct values are counted in
  order of first appearance and sorted by descending count. Nothing compares the values
  themselves. The sort is numpy's quicksort: on a short list (up to sixteen values) equal
  counts keep the order of first appearance, which is what the model does throughout; on
  a longer list the order among equal counts is not determined by the source, and no
  theorem below says anything about it beyond the two-hall example.
\<close>

definition value_counts :: "series \<Rightarrow> (string \<times> nat) list" where
  "value_counts s =
     (let vals = dropna s
      in sort_key (\<lambda>(v, n). - int n) (map (\<lambda>v. (v, count_list vals v)) (unique vals)))"

text \<open>\<open>chart_data\<close>, given the frame \<open>load_timetable\<close> returned: labels and values.\<close>

definition chart_data :: "dataframe \<Rightarrow> string list \<times> nat list" where
  "chart_data df =
     (if df_empty df \<or> \<not> has_col df ''Lecture Hall'' then ([], [])
      else
        let hall_counts = value_counts (map (\<lambda>r. r ''Lecture Hall'') (rows df))
        in (map fst hall_counts, map snd hall_counts))"

text \<open>
  The dropdown options and the four figures of \<open>index\<close>. \<open>s.mode()\<close> returns the most
  frequent values in ascending order; \<open>idxmin\<close> the first label with the least count.
  Both are read only where \<open>total_halls > 0\<close>, which leaves them non-empty.
\<close>

definition day_options :: "dataframe \<Rightarrow> string list" where
  "day_options df =
     (if has_col df ''Day'' then sort (unique (dropna (map (\<lambda>r. r ''Day'') (rows df)))) else [])"

definition time_options :: "dataframe \<Rightarrow> string list" where
  "time_options df =
     (if has_col df ''Time'' then sort (unique (dropna (map (\<lambda>r. r ''Time'') (rows df)))) else [])"

definition mode :: "series \<Rightarrow> string list" where
  "mode s =
     (let vals = dropna s;
          top = fold max (map (count_list vals) vals) 0
      in sort (filter (\<lambda>v. count_list vals v = top) (unique vals)))"

definition idxmin :: "(string \<times> nat) list \<Rightarrow> string option" where
  "idxmin vc =
     (case vc of
        [] \<Rightarrow> None
      | p # ps \<Rightarrow> map_option fst (find (\<lambda>(v, n). n = fold min (map snd ps) (snd p)) vc))"

record stats =
  total_courses :: nat
  total_halls :: nat
  most_used :: string
  least_used :: string

definition index_stats :: "dataframe \<Rightarrow> stats" where
  "index_stats df =
     (let hall = map (\<lambda>r. r ''Lecture Hall'') (rows df);
          total_halls = (if has_col df ''Lecture Hall'' then length (unique (dropna hall)) else 0)
      in \<lparr>total_courses = length (rows df),
          total_halls = total_halls,
          most_used = (if 0 < total_halls
                       then (case mode hall of m # _ \<Rightarrow> m | [] \<Rightarrow> ''N/A'') else ''N/A''),
          least_used = (if 0 < total_halls
                        then (case idxmin (value_counts hall) of Some l \<Rightarrow> l | None \<Rightarrow> ''N/A'')
                        else ''N/A'')\<rparr>)"

section \<open>Notions used in the statements\<close>

text \<open>
  The rows selected by line 65 of \<open>get_free_halls\<close>: the day equals the normalised
  query and the compiled pattern is found in the time.
\<close>

definition occupied_rows :: "dataframe \<Rightarrow> string \<Rightarrow> (string \<Rightarrow> bool) \<Rightarrow> row list" where
  "occupied_rows df day m =
     filter (\<lambda>r. r ''Day'' = Some day \<and> (case r ''Time'' of None \<Rightarrow> False | Some t \<Rightarrow> m t))
       (rows df)"

text \<open>
  The slot of a reported conflict, the slots of a dataset in ascending order, and those
  held by more than one record.
\<close>

definition slot_of :: "conflict \<Rightarrow> slot" where
  "slot_of c = (c_day c, c_time c, c_hall c)"

definition slot_keys :: "dataframe \<Rightarrow> slot list" where
  "slot_keys df = sorted_set (List.map_filter row_key (rows df))"

definition conflict_keys :: "dataframe \<Rightarrow> slot list" where
  "conflict_keys df = filter (\<lambda>k. 1 < length (group_rows (rows df) k)) (slot_keys df)"

text \<open>The number of courses the report lists for a slot; zero when it has no entry.\<close>

definition report_count :: "conflict list \<Rightarrow> slot \<Rightarrow> nat" where
  "report_count cs k =
     (case find (\<lambda>c. slot_of c = k) cs of None \<Rightarrow> 0 | Some c \<Rightarrow> length (c_courses c))"

text \<open>The dataset with one more record at its end.\<close>

definition append_row :: "dataframe \<Rightarrow> row \<Rightarrow> dataframe" where
  "append_row df r = df\<lparr>rows := rows df @ [r]\<rparr>"

text \<open>The records that have a lecture hall.\<close>

definition drop_null_halls :: "dataframe \<Rightarrow> dataframe" where
  "drop_null_halls df = df\<lparr>rows := filter (\<lambda>r. r ''Lecture Hall'' \<noteq> None) (rows df)\<rparr>"

text \<open>
  The shape of a cleaned hall name: upper case, blanks as the only whitespace and never
  two in a row, none after an opening or before a closing parenthesis, none between A
  and B or E and B, none at either end.
\<close>

definition canonical_hall :: "string \<Rightarrow> bool" where
  "canonical_hall s \<longleftrightarrow>
     (\<forall>c \<in> set s. upper_char c = c \<and> (is_space c \<longrightarrow> c = CHR '' '')) \<and>
     \<not> sublist ''  '' s \<and> \<not> sublist ''( '' s \<and> \<not> sublist '' )'' s \<and>
     \<not> sublist ''A B'' s \<and> \<not> sublist ''E B'' s \<and> str_strip s = s"

section \<open>Example timetables\<close>

text \<open>A row written as the list of its cells; every other name is missing.\<close>

definition mk_row :: "(string \<times> string) list \<Rightarrow> row" where
  "mk_row kvs = map_of kvs"

text \<open>The timetable used in most examples: AB is booked twice on Monday at nine.\<close>

definition sample :: dataframe where
  "sample = \<lparr>columns = [''Day'', ''Time'', ''Lecture Hall'', ''Course Code''],
     rows = [mk_row [(''Day'', ''Monday''), (''Time'', ''09:00-10:00''),
                     (''Lecture Hall'', ''AB''), (''Course Code'', ''CS101'')],
             mk_row [(''Day'', ''Monday''), (''Time'', ''09:00-10:00''),
                     (''Lecture Hall'', ''AB''), (''Course Code'', ''CS102'')],
             mk_row [(''Day'', ''Monday''), (''Time'', ''09:00-10:00''),
                     (''Lecture Hall'', ''EB''), (''Course Code'', ''CS103'')],
             mk_row [(''Day'', ''Tuesday''), (''Time'', ''11:00-12:00''),
                     (''Lecture Hall'', ''LT1''), (''Course Code'', ''CS104'')]]\<rparr>"

text \<open>
  A file whose two Monday records at nine have no lecture hall, one where a course is
  entered twice for the same slot, and one with a single record, which has no lecture hall.
\<close>

definition null_hall_raw :: dataframe where
  "null_hall_raw = \<lparr>columns = [''Day'', ''Time'', ''Lecture Hall'', ''Course Code''],
     rows = [mk_row [(''Day'', ''Monday''), (''Time'', ''09:00-10:00''), (''Course Code'', ''CS101'')],
             mk_row [(''Day'', ''Monday''), (''Time'', ''09:00-10:00''), (''Course Code'', ''CS102'')]]\<rparr>"

definition same_course_raw :: dataframe where
  "same_course_raw = \<lparr>columns = [''Day'', ''Time'', ''Lecture Hall'', ''Course Code''],
     rows = [mk_row [(''Day'', ''Monday''), (''Time'', ''09:00-10:00''),
                     (''Lecture Hall'', ''AB''), (''Course Code'', ''CS101'')],
             mk_row [(''Day'', ''Monday''), (''Time'', ''09:00-10:00''),
                     (''Lecture Hall'', ''AB''), (''Course Code'', ''CS101'')]]\<rparr>"

definition single_null_raw :: dataframe where
  "single_null_raw = \<lparr>columns = [''Day'', ''Time'', ''Lecture Hall'', ''Course Code''],
     rows = [mk_row [(''Day'', ''Monday''), (''Time'', ''09:00-10:00''), (''Course Code'', ''CS101'')]]\<rparr>"

text \<open>
  The record of \<open>sample\<close> that holds EB alone, a further record for the same slot, and a
  further record for the slot of \<open>single_null_raw\<close>, again without a hall.
\<close>

definition eb_row :: row where
  "eb_row = mk_row [(''Day'', ''Monday''), (''Time'', ''09:00-10:00''),
                    (''Lecture Hall'', ''EB''), (''Course Code'', ''CS103'')]"

definition eb_extra :: row where
  "eb_extra = mk_row [(''Day'', ''Monday''), (''Time'', ''09:00-10:00''),
                      (''Lecture Hall'', ''EB''), (''Course Code'', ''CS105'')]"

definition null_extra :: row where
  "null_extra = mk_row [(''Day'', ''Monday''), (''Time'', ''09:00-10:00''), (''Course Code'', ''CS102'')]"

text \<open>A file without a Day column.\<close>

definition no_day_raw :: dataframe where
  "no_day_raw = \<lparr>columns = [''Time'', ''Lecture Hall'', ''Course Code''],
     rows = [mk_row [(''Time'', ''09:00-10:00''), (''Lecture Hall'', ''AB''), (''Course Code'', ''CS101'')]]\<rparr>"

text \<open>A file whose two halls are used once each, B before A.\<close>

definition tie_raw :: dataframe where
  "tie_raw = \<lparr>columns = [''Day'', ''Time'', ''Lecture Hall'', ''Course Code''],
     rows = [mk_row [(''Day'', ''Monday''), (''Time'', ''09:00-10:00''),
                     (''Lecture Hall'', ''B''), (''Course Code'', ''CS101'')],
             mk_row [(''Day'', ''Monday''), (''Time'', ''09:00-10:00''),
                     (''Lecture Hall'', ''A''), (''Course Code'', ''CS102'')]]\<rparr>"

text \<open>
  A file whose first two records have no day and whose last two have no time; the header
  is written in lower and upper case, with blanks.
\<close>

definition nan_raw :: dataframe where
  "nan_raw = \<lparr>columns = ['' day'', ''TIME '', ''lecture hall'', ''course code''],
     rows = [mk_row [(''TIME '', ''09:00-10:00''), (''lecture hall'', ''eb''), (''course code'', ''CS201'')],
             mk_row [(''TIME '', ''09:00-10:00''), (''lecture hall'', ''eb''), (''course code'', ''CS202'')],
             mk_row [('' day'', ''monday''), (''lecture hall'', ''ab''), (''course code'', ''CS203'')],
             mk_row [('' day'', ''monday''), (''lecture hall'', ''ab''), (''course code'', ''CS204'')]]\<rparr>"

section \<open>Basic facts\<close>

lemma ebind_Inr_iff: "ebind m f = Inr y \<longleftrightarrow> (\<exists>x. m = Inr x \<and> f x = Inr y)"
  by (cases m) (simp_all add: ebind_def)

lemma ebind_Inr [simp]: "ebind (Inr x) f = f x"
  by (simp add: ebind_def)

lemma ebind_Inl [simp]: "ebind (Inl e) f = Inl e"
  by (simp add: ebind_def)

lemma set_sorted_set [simp]: "set (sorted_set xs) = set xs"
  by (simp add: sorted_set_def)

lemma sorted_sorted_set [simp]: "sorted (sorted_set xs)"
  by (simp add: sorted_set_def)

lemma distinct_sorted_set [simp]: "distinct (sorted_set xs)"
  by (simp add: sorted_set_def)

lemma dropna_simps [simp]:
  "dropna [] = []" "dropna (None # s) = dropna s" "dropna (Some x # s) = x # dropna s"
  by (simp_all add: dropna_def List.map_filter_simps)

lemma set_dropna [simp]: "set (dropna s) = {x. Some x \<in> set s}"
proof (induction s)
  case Nil
  then show ?case by simp
next
  case (Cons v s)
  then show ?case by (cases v) auto
qed

lemma set_dropna_col: "set (dropna (map (\<lambda>r. r c) rs)) = {x. \<exists>r \<in> set rs. r c = Some x}"
proof (induction rs)
  case Nil
  then show ?case by simp
next
  case (Cons r rs)
  then show ?case by (cases "r c") auto
qed

lemma set_unique [simp]: "set (unique xs) = set xs"
  by (simp add: unique_def)

lemma distinct_unique [simp]: "distinct (unique xs)"
  by (simp add: unique_def)

lemma getcol_has [simp]: "has_col df c \<Longrightarrow> getcol df c = Inr (map (\<lambda>r. r c) (rows df))"
  by (simp add: getcol_def)

lemma getcol_missing [simp]: "\<not> has_col df c \<Longrightarrow> getcol df c = Inl (KeyError c)"
  by (simp add: getcol_def)

lemma has_col_boolean_index [simp]: "has_col (boolean_index df m) c = has_col df c"
  by (simp add: has_col_def boolean_index_def)

lemma filter_by_mask: "map fst (filter snd (zip xs (map p xs))) = filter p xs"
  by (induction xs) simp_all

lemma map2_conj: "map2 (\<and>) (map f xs) (map g xs) = map (\<lambda>x. f x \<and> g x) xs"
  by (induction xs) simp_all

lemma rows_boolean_index_rows:
  "rows (boolean_index df (map2 (\<and>) (map f (rows df)) (map g (rows df)))) =
     filter (\<lambda>r. f r \<and> g r) (rows df)"
  by (simp add: boolean_index_def map2_conj filter_by_mask)

lemma str_contains_compiled:
  "re_compile re_other pat = Some m \<Longrightarrow>
   str_contains re_other s pat = Inr (map (\<lambda>v. case v of None \<Rightarrow> False | Some t \<Rightarrow> m t) s)"
  by (simp add: str_contains_def)

lemma str_contains_error:
  "re_compile re_other pat = None \<Longrightarrow> str_contains re_other s pat = Inl (ReError pat)"
  by (simp add: str_contains_def)

lemma get_free_halls_returns:
  assumes "\<not> df_empty df" "has_col df ''Day''" "has_col df ''Time''" "has_col df ''Lecture Hall''"
    and "re_compile re_other (str_strip time) = Some m"
  shows "get_free_halls re_other df day time =
     Inr (sorted_set (filter (\<lambda>h. h \<notin> set (sorted_set (dropna (map (\<lambda>r. r ''Lecture Hall'')
                (occupied_rows df (str_title (str_strip day)) m)))))
            (sorted_set (dropna (map (\<lambda>r. r ''Lecture Hall'') (rows df))))),
          sorted_set (dropna (map (\<lambda>r. r ''Lecture Hall'')
                (occupied_rows df (str_title (str_strip day)) m))))"
proof -
  have hits: "str_contains re_other (map (\<lambda>r. r ''Time'') (rows df)) (str_strip time) =
      Inr (map (\<lambda>r. case r ''Time'' of None \<Rightarrow> False | Some t \<Rightarrow> m t) (rows df))"
    using assms(5) by (simp add: str_contains_compiled comp_def)
  show ?thesis
    unfolding get_free_halls_def Let_def
    using assms(1-4) by (simp add: hits rows_boolean_index_rows occupied_rows_def)
qed

lemma get_free_halls_raises:
  assumes "\<not> df_empty df"
    and "\<not> has_col df ''Day'' \<or> \<not> has_col df ''Time'' \<or> \<not> has_col df ''Lecture Hall'' \<or>
         re_compile re_other (str_strip time) = None"
  shows "\<exists>e. get_free_halls re_other df day time = Inl e"
proof (cases "has_col df ''Day''")
  case False
  then show ?thesis using assms(1) by (simp add: get_free_halls_def)
next
  case d: True
  show ?thesis
  proof (cases "has_col df ''Time''")
    case False
    then show ?thesis using assms(1) d by (simp add: get_free_halls_def)
  next
    case t: True
    show ?thesis
    proof (cases "re_compile re_other (str_strip time)")
      case None
      then show ?thesis using assms(1) d t by (simp add: get_free_halls_def str_contains_error)
    next
      case (Some m)
      with assms(2) d t have "\<not> has_col df ''Lecture Hall''" by simp
      then show ?thesis
        using assms(1) d t Some by (simp add: get_free_halls_def str_contains_compiled)
    qed
  qed
qed

section \<open>The empty dataset\<close>

text \<open>
  Claim C9. With no record in the dataset (no file was loaded, or the file holds a header
  only) the availability query returns two empty lists, conflict detection the empty
  list, the chart data empty labels and values, the dropdown options are empty, and the
  summary shows zero courses, zero halls and "N/A" twice. Each of them returns.
\<close>

theorem empty_dataset_safe:
  assumes "rows df = []"
  shows "get_free_halls re_other df day time = Inr ([], []) \<and>
         detect_conflicts df = Inr [] \<and>
         chart_data df = ([], []) \<and>
         day_options df = [] \<and> time_options df = [] \<and>
         index_stats df = \<lparr>total_courses = 0, total_halls = 0,
                           most_used = ''N/A'', least_used = ''N/A''\<rparr>"
  using assms
  by (simp add: get_free_halls_def detect_conflicts_def chart_data_def df_empty_def
      day_options_def time_options_def index_stats_def unique_def)

theorem empty_dataset_safe_witness:
  "rows (load_timetable NaAsText None) = [] \<and>
   get_free_halls (\<lambda>p. None) (load_timetable NaAsText None) ''Monday'' ''9'' = Inr ([], []) \<and>
   detect_conflicts (load_timetable NaAsText None) = Inr [] \<and>
   chart_data (load_timetable NaAsText None) = ([], []) \<and>
   day_options (load_timetable NaAsText None) = [] \<and>
   time_options (load_timetable NaAsText None) = [] \<and>
   index_stats (load_timetable NaAsText None) =
     \<lparr>total_courses = 0, total_halls = 0, most_used = ''N/A'', least_used = ''N/A''\<rparr> \<and>
   rows (load_timetable NaKept None) = [] \<and>
   get_free_halls (\<lambda>p. None) (load_timetable NaKept None) ''Monday'' ''9'' = Inr ([], []) \<and>
   detect_conflicts (load_timetable NaKept None) = Inr [] \<and>
   chart_data (load_timetable NaKept None) = ([], []) \<and>
   day_options (load_timetable NaKept None) = [] \<and>
   time_options (load_timetable NaKept None) = [] \<and>
   index_stats (load_timetable NaKept None) =
     \<lparr>total_courses = 0, total_halls = 0, most_used = ''N/A'', least_used = ''N/A''\<rparr>"
proof -
  have e: "rows (load_timetable na_mode None) = []" for na_mode
    by (simp add: load_timetable_def empty_frame_def)
  show ?thesis
    using e [of NaAsText] e [of NaKept]
      empty_dataset_safe [OF e [of NaAsText], of "\<lambda>p. None" "''Monday''" "''9''"]
      empty_dataset_safe [OF e [of NaKept], of "\<lambda>p. None" "''Monday''" "''9''"]
    by simp
qed

section \<open>Free and occupied halls\<close>

lemma sample_query:
  "get_free_halls (\<lambda>p. None) sample '' monday '' ''09'' = Inr ([''LT1''], [''AB'', ''EB''])"
  by code_simp

text \<open>
  Claim C5. Whenever the availability query returns, its free and occupied lists have no
  hall in common and together hold exactly the halls (non-missing values of Lecture
  Hall) of the dataset; both are ascending without repetition.
\<close>

theorem partition_halls:
  assumes "get_free_halls re_other df day time = Inr (free, occ)"
  shows "set free \<inter> set occ = {} \<and>
         set free \<union> set occ =
           {h. has_col df ''Lecture Hall'' \<and> (\<exists>r \<in> set (rows df). r ''Lecture Hall'' = Some h)} \<and>
         sorted free \<and> distinct free \<and> sorted occ \<and> distinct occ"
proof (cases "df_empty df")
  case True
  with assms have "free = []" "occ = []"
    by (simp_all add: get_free_halls_def)
  moreover from True have "\<not> has_col df ''Lecture Hall'' \<or> rows df = []"
    by (auto simp: df_empty_def has_col_def)
  ultimately show ?thesis by auto
next
  case False
  have ok: "has_col df ''Day'' \<and> has_col df ''Time'' \<and> has_col df ''Lecture Hall'' \<and>
      re_compile re_other (str_strip time) \<noteq> None"
  proof (rule ccontr)
    assume "\<not> ?thesis"
    then have "\<not> has_col df ''Day'' \<or> \<not> has_col df ''Time'' \<or> \<not> has_col df ''Lecture Hall'' \<or>
        re_compile re_other (str_strip time) = None"
      by blast
    from get_free_halls_raises [OF False this] obtain e where
      "get_free_halls re_other df day time = Inl e" by blast
    with assms show False by simp
  qed
  then obtain m where m: "re_compile re_other (str_strip time) = Some m"
    by auto
  define occ_rows where "occ_rows = occupied_rows df (str_title (str_strip day)) m"
  define halls where "halls = dropna (map (\<lambda>r. r ''Lecture Hall'') (rows df))"
  have res: "get_free_halls re_other df day time =
      Inr (sorted_set (filter (\<lambda>h. h \<notin> set (sorted_set (dropna (map (\<lambda>r. r ''Lecture Hall'') occ_rows))))
             (sorted_set halls)),
           sorted_set (dropna (map (\<lambda>r. r ''Lecture Hall'') occ_rows)))"
    unfolding occ_rows_def halls_def
    using ok m False by (intro get_free_halls_returns) simp_all
  from res assms have
    occ: "occ = sorted_set (dropna (map (\<lambda>r. r ''Lecture Hall'') occ_rows))" and
    free: "free = sorted_set (filter (\<lambda>h. h \<notin> set occ) (sorted_set halls))"
    by simp_all
  have "set occ_rows \<subseteq> set (rows df)"
    by (auto simp: occ_rows_def occupied_rows_def)
  then have B: "set occ \<subseteq> set halls"
    unfolding occ halls_def set_sorted_set set_dropna_col by blast
  have A: "set halls = {h. \<exists>r \<in> set (rows df). r ''Lecture Hall'' = Some h}"
    unfolding halls_def by (rule set_dropna_col)
  have F: "set free = set halls - set occ"
    unfolding free set_sorted_set set_filter by blast
  have "set free \<inter> set occ = {}" using F by blast
  moreover have "set free \<union> set occ = set halls" using F B by blast
  moreover have "sorted free" "distinct free" "sorted occ" "distinct occ"
    unfolding free occ by simp_all
  ultimately show ?thesis
    using ok A by simp
qed

theorem partition_halls_witness:
  "get_free_halls (\<lambda>p. None) sample '' monday '' ''09'' = Inr ([''LT1''], [''AB'', ''EB'']) \<and>
   set [''LT1''] \<inter> set [''AB'', ''EB''] = {} \<and>
   set [''LT1''] \<union> set [''AB'', ''EB''] =
     {h. has_col sample ''Lecture Hall'' \<and> (\<exists>r \<in> set (rows sample). r ''Lecture Hall'' = Some h)} \<and>
   sorted [''LT1''] \<and> distinct [''LT1''] \<and> sorted [''AB'', ''EB''] \<and> distinct [''AB'', ''EB'']"
  by (rule conjI [OF sample_query partition_halls [OF sample_query]])

section \<open>Conflict detection\<close>

lemma set_map_filter_key: "set (List.map_filter f xs) = {y. \<exists>x \<in> set xs. f x = Some y}"
proof (induction xs)
  case Nil
  then show ?case by simp
next
  case (Cons x xs)
  then show ?case by (cases "f x") auto
qed

lemma set_slot_keys: "set (slot_keys df) = {k. \<exists>r \<in> set (rows df). row_key r = Some k}"
  by (simp add: slot_keys_def set_map_filter_key)

lemma group_rows_nonempty: "group_rows rs k \<noteq> [] \<longleftrightarrow> (\<exists>r \<in> set rs. row_key r = Some k)"
  by (auto simp: group_rows_def filter_empty_conv)

lemma set_conflict_keys: "set (conflict_keys df) = {k. 1 < length (group_rows (rows df) k)}"
proof -
  have "k \<in> set (slot_keys df)" if "1 < length (group_rows (rows df) k)" for k
  proof -
    from that have "group_rows (rows df) k \<noteq> []" by auto
    then show ?thesis by (simp add: set_slot_keys group_rows_nonempty)
  qed
  then show ?thesis by (auto simp: conflict_keys_def)
qed

lemma sorted_conflict_keys: "sorted (conflict_keys df)" "distinct (conflict_keys df)"
  by (simp_all add: conflict_keys_def slot_keys_def sorted_filter [where f = "\<lambda>x. x", simplified])

lemma has_col_merge_inner [simp]: "has_col (merge_inner df ks) c = has_col df c"
  by (simp add: has_col_def merge_inner_def)

lemma groupby_returns:
  assumes "has_col df ''Day''" "has_col df ''Time''" "has_col df ''Lecture Hall''"
  shows "groupby df = Inr (map (\<lambda>k. (k, group_rows (rows df) k)) (slot_keys df))"
  using assms by (simp add: groupby_def slot_keys_def)

lemma groupby_raises:
  assumes "\<not> has_col df ''Day'' \<or> \<not> has_col df ''Time'' \<or> \<not> has_col df ''Lecture Hall''"
  shows "\<exists>c. groupby df = Inl (KeyError c) \<and> c \<in> {''Day'', ''Time'', ''Lecture Hall''} \<and> \<not> has_col df c"
  using assms by (auto simp: groupby_def split: list.splits)

lemma group_rows_merge_inner:
  assumes "k \<in> set ks"
  shows "group_rows (rows (merge_inner df ks)) k = group_rows (rows df) k"
proof -
  have "filter (\<lambda>r. row_key r = Some k)
          (filter (\<lambda>r. case row_key r of None \<Rightarrow> False | Some k' \<Rightarrow> k' \<in> set ks) rs) =
        filter (\<lambda>r. row_key r = Some k) rs" for rs
    using assms by (induction rs) auto
  then show ?thesis by (simp add: group_rows_def merge_inner_def)
qed

lemma slot_keys_merge_inner: "slot_keys (merge_inner df (conflict_keys df)) = conflict_keys df"
proof (rule sorted_distinct_set_unique)
  show "sorted (slot_keys (merge_inner df (conflict_keys df)))"
    "distinct (slot_keys (merge_inner df (conflict_keys df)))"
    by (simp_all add: slot_keys_def)
  show "sorted (conflict_keys df)" "distinct (conflict_keys df)"
    by (rule sorted_conflict_keys)+
  show "set (slot_keys (merge_inner df (conflict_keys df))) = set (conflict_keys df)"
  proof (rule set_eqI)
    fix k
    have "k \<in> set (slot_keys (merge_inner df (conflict_keys df))) \<longleftrightarrow>
        (\<exists>r \<in> set (rows df). row_key r = Some k \<and> k \<in> set (conflict_keys df))"
      unfolding set_slot_keys by (auto simp: merge_inner_def)
    moreover have "\<exists>r \<in> set (rows df). row_key r = Some k" if "k \<in> set (conflict_keys df)"
      using that by (auto simp: conflict_keys_def set_slot_keys)
    ultimately show "k \<in> set (slot_keys (merge_inner df (conflict_keys df))) \<longleftrightarrow>
        k \<in> set (conflict_keys df)"
      by blast
  qed
qed

lemma detect_conflicts_raises_key:
  assumes "\<not> df_empty df"
    and "\<not> has_col df ''Day'' \<or> \<not> has_col df ''Time'' \<or> \<not> has_col df ''Lecture Hall''"
  shows "\<exists>c. detect_conflicts df = Inl (KeyError c)"
proof -
  from groupby_raises [OF assms(2)] obtain c where "groupby df = Inl (KeyError c)" by blast
  then show ?thesis using assms(1) by (simp add: detect_conflicts_def)
qed

lemma detect_conflicts_cases:
  assumes "has_col df ''Day''" "has_col df ''Time''" "has_col df ''Lecture Hall''"
  shows "detect_conflicts df =
     (if conflict_keys df = [] then Inr []
      else if has_col df ''Course Code''
      then Inr (map (\<lambda>k. mk_conflict k (map (\<lambda>r. r ''Course Code'') (group_rows (rows df) k)))
                  (conflict_keys df))
      else Inl (KeyError ''Course Code''))"
proof (cases "df_empty df")
  case True
  with assms have "rows df = []" by (auto simp: df_empty_def has_col_def)
  then have "conflict_keys df = []" by (simp add: conflict_keys_def slot_keys_def sorted_set_def)
  with True show ?thesis by (simp add: detect_conflicts_def)
next
  case False
  let ?groups = "map (\<lambda>k. (k, group_rows (rows df) k)) (slot_keys df)"
  let ?counts = "map (\<lambda>(k, g). (k, length g)) ?groups"
  let ?cc = "\<lambda>(k, g). mk_conflict k (map (\<lambda>r. r ''Course Code'') g)"
  have counts: "?counts = map (\<lambda>k. (k, length (group_rows (rows df) k))) (slot_keys df)"
    by simp
  have "filter (\<lambda>(k, n). 1 < n) ?counts =
      map (\<lambda>k. (k, length (group_rows (rows df) k))) (conflict_keys df)"
    unfolding counts by (simp add: conflict_keys_def filter_map comp_def)
  then have ck: "map fst (filter (\<lambda>(k, n). 1 < n) ?counts) = conflict_keys df"
    by (simp add: comp_def)
  have nil: "(filter (\<lambda>(k, n). 1 < n) ?counts = []) = (conflict_keys df = [])"
    using ck map_is_Nil_conv [of fst "filter (\<lambda>(k, n). 1 < n) ?counts"] by simp
  have "map (\<lambda>k. (k, group_rows (rows (merge_inner df (conflict_keys df))) k)) (conflict_keys df) =
      map (\<lambda>k. (k, group_rows (rows df) k)) (conflict_keys df)"
    by (rule map_cong) (simp_all add: group_rows_merge_inner)
  then have g2: "groupby (merge_inner df (conflict_keys df)) =
      Inr (map (\<lambda>k. (k, group_rows (rows df) k)) (conflict_keys df))"
    using assms by (simp add: groupby_returns slot_keys_merge_inner)
  have out: "map ?cc (map (\<lambda>k. (k, group_rows (rows df) k)) (conflict_keys df)) =
      map (\<lambda>k. mk_conflict k (map (\<lambda>r. r ''Course Code'') (group_rows (rows df) k)))
        (conflict_keys df)"
    by simp
  have "detect_conflicts df =
      (if conflict_keys df = [] then Inr []
       else if has_col df ''Course Code''
       then Inr (map ?cc (map (\<lambda>k. (k, group_rows (rows df) k)) (conflict_keys df)))
       else Inl (KeyError ''Course Code''))"
    using False
    by (simp only: detect_conflicts_def groupby_returns [OF assms] ebind_Inr if_False Let_def
        nil ck g2 has_col_merge_inner)
  then show ?thesis
    by (simp only: out)
qed

lemma row_key_Some_iff:
  "row_key r = Some (d, t, h) \<longleftrightarrow>
     r ''Day'' = Some d \<and> r ''Time'' = Some t \<and> r ''Lecture Hall'' = Some h"
  by (auto simp: row_key_def split: option.splits)

lemma group_rows_triple:
  "group_rows rs (d, t, h) =
     filter (\<lambda>r. r ''Day'' = Some d \<and> r ''Time'' = Some t \<and> r ''Lecture Hall'' = Some h) rs"
  by (simp add: group_rows_def row_key_Some_iff)

lemma slot_of_mk_conflict [simp]: "slot_of (mk_conflict k cs) = k"
  by (cases k) (simp add: slot_of_def mk_conflict_def)

lemma c_courses_mk_conflict [simp]: "c_courses (mk_conflict k cs) = cs"
  by (cases k) (simp add: mk_conflict_def)

lemma detect_conflicts_returns:
  assumes "has_col df ''Day''" "has_col df ''Time''" "has_col df ''Lecture Hall''"
    "has_col df ''Course Code''"
  shows "detect_conflicts df =
     Inr (map (\<lambda>k. mk_conflict k (map (\<lambda>r. r ''Course Code'') (group_rows (rows df) k)))
            (conflict_keys df))"
  using assms by (simp add: detect_conflicts_cases)

text \<open>
  Claim C4, amended. On a dataset with the four columns conflict detection returns, in
  ascending order and once each, exactly the (day, time, hall) slots held by more than
  one record, each with the course codes of its records in dataset order. Records are
  counted, not distinct courses: a slot whose records carry the same course code is
  reported as well.
\<close>

theorem conflicts_are_multi_record_slots:
  assumes "has_col df ''Day''" "has_col df ''Time''" "has_col df ''Lecture Hall''"
    "has_col df ''Course Code''"
  shows "\<exists>cs. detect_conflicts df = Inr cs \<and>
           sorted (map slot_of cs) \<and> distinct (map slot_of cs) \<and>
           (\<forall>d t h. (\<exists>c \<in> set cs. slot_of c = (d, t, h)) \<longleftrightarrow>
              1 < length (filter (\<lambda>r. r ''Day'' = Some d \<and> r ''Time'' = Some t \<and>
                                  r ''Lecture Hall'' = Some h) (rows df))) \<and>
           (\<forall>c \<in> set cs. \<forall>d t h. slot_of c = (d, t, h) \<longrightarrow>
              c_courses c = map (\<lambda>r. r ''Course Code'')
                (filter (\<lambda>r. r ''Day'' = Some d \<and> r ''Time'' = Some t \<and>
                            r ''Lecture Hall'' = Some h) (rows df)))"
proof -
  define cs where "cs = map (\<lambda>k. mk_conflict k (map (\<lambda>r. r ''Course Code'') (group_rows (rows df) k)))
      (conflict_keys df)"
  have res: "detect_conflicts df = Inr cs"
    unfolding cs_def by (rule detect_conflicts_returns [OF assms])
  have slots: "map slot_of cs = conflict_keys df"
    by (simp add: cs_def comp_def)
  have mem: "(\<exists>c \<in> set cs. slot_of c = k) \<longleftrightarrow> 1 < length (group_rows (rows df) k)" for k
  proof -
    have "(\<exists>c \<in> set cs. slot_of c = k) \<longleftrightarrow> k \<in> set (map slot_of cs)" by auto
    then show ?thesis by (simp only: slots set_conflict_keys mem_Collect_eq)
  qed
  have courses: "c_courses c = map (\<lambda>r. r ''Course Code'') (group_rows (rows df) (slot_of c))"
    if "c \<in> set cs" for c
    using that by (auto simp: cs_def)
  show ?thesis
  proof (intro exI conjI allI ballI impI)
    show "detect_conflicts df = Inr cs" by (rule res)
    show "sorted (map slot_of cs)" "distinct (map slot_of cs)"
      unfolding slots by (rule sorted_conflict_keys)+
  next
    fix d t h
    show "(\<exists>c \<in> set cs. slot_of c = (d, t, h)) \<longleftrightarrow>
        1 < length (filter (\<lambda>r. r ''Day'' = Some d \<and> r ''Time'' = Some t \<and>
                              r ''Lecture Hall'' = Some h) (rows df))"
      using mem [of "(d, t, h)"] by (simp only: group_rows_triple)
  next
    fix c d t h
    assume "c \<in> set cs" "slot_of c = (d, t, h)"
    then show "c_courses c = map (\<lambda>r. r ''Course Code'')
        (filter (\<lambda>r. r ''Day'' = Some d \<and> r ''Time'' = Some t \<and>
                    r ''Lecture Hall'' = Some h) (rows df))"
      using courses [of c] by (simp only: group_rows_triple)
  qed
qed

theorem same_course_is_reported:
  "detect_conflicts (load_timetable NaAsText (Some same_course_raw)) =
     Inr [\<lparr>c_day = ''Monday'', c_time = ''09:00-10:00'', c_hall = ''AB'',
           c_courses = [Some ''CS101'', Some ''CS101'']\<rparr>] \<and>
   detect_conflicts (load_timetable NaKept (Some same_course_raw)) =
     Inr [\<lparr>c_day = ''Monday'', c_time = ''09:00-10:00'', c_hall = ''AB'',
           c_courses = [Some ''CS101'', Some ''CS101'']\<rparr>]"
  by code_simp

lemma sample_columns:
  "has_col sample ''Day''" "has_col sample ''Time''" "has_col sample ''Lecture Hall''"
  "has_col sample ''Course Code''"
  by (simp_all add: has_col_def sample_def)

theorem conflicts_are_multi_record_slots_witness:
  "has_col sample ''Day'' \<and> has_col sample ''Time'' \<and> has_col sample ''Lecture Hall'' \<and>
   has_col sample ''Course Code'' \<and>
   (\<exists>cs. detect_conflicts sample = Inr cs \<and>
      sorted (map slot_of cs) \<and> distinct (map slot_of cs) \<and>
      (\<forall>d t h. (\<exists>c \<in> set cs. slot_of c = (d, t, h)) \<longleftrightarrow>
         1 < length (filter (\<lambda>r. r ''Day'' = Some d \<and> r ''Time'' = Some t \<and>
                             r ''Lecture Hall'' = Some h) (rows sample))) \<and>
      (\<forall>c \<in> set cs. \<forall>d t h. slot_of c = (d, t, h) \<longrightarrow>
         c_courses c = map (\<lambda>r. r ''Course Code'')
           (filter (\<lambda>r. r ''Day'' = Some d \<and> r ''Time'' = Some t \<and>
                       r ''Lecture Hall'' = Some h) (rows sample))))"
  using sample_columns conflicts_are_multi_record_slots [OF sample_columns] by blast

lemma map_filter_drop_null:
  "List.map_filter row_key (filter (\<lambda>r. r ''Lecture Hall'' \<noteq> None) rs) = List.map_filter row_key rs"
proof (induction rs)
  case Nil
  then show ?case by simp
next
  case (Cons r rs)
  then show ?case by (cases "r ''Lecture Hall''") (simp_all add: row_key_def split: option.splits)
qed

lemma group_rows_drop_null:
  "group_rows (filter (\<lambda>r. r ''Lecture Hall'' \<noteq> None) rs) k = group_rows rs k"
proof -
  have "row_key r = Some k \<Longrightarrow> r ''Lecture Hall'' \<noteq> None" for r
    by (cases k) (auto simp: row_key_Some_iff)
  then have "filter (\<lambda>r. row_key r = Some k) (filter (\<lambda>r. r ''Lecture Hall'' \<noteq> None) rs) =
      filter (\<lambda>r. row_key r = Some k) rs"
    by (induction rs) auto
  then show ?thesis by (simp add: group_rows_def)
qed

lemma rows_drop_null: "rows (drop_null_halls df) = filter (\<lambda>r. r ''Lecture Hall'' \<noteq> None) (rows df)"
  by (simp add: drop_null_halls_def)

lemma conflict_keys_drop_null: "conflict_keys (drop_null_halls df) = conflict_keys df"
  by (simp only: conflict_keys_def slot_keys_def rows_drop_null map_filter_drop_null
      group_rows_drop_null)

lemma has_col_drop_null [simp]: "has_col (drop_null_halls df) c = has_col df c"
  by (simp add: has_col_def drop_null_halls_def)

text \<open>
  Claim C1, amended. Records whose lecture hall is missing belong to no group: on a
  dataset with the Day, Time and Lecture Hall columns conflict detection gives the same
  result as on the dataset without those records, so no conflict is ever reported under
  a missing hall, whatever the number of such records sharing a day and time.
\<close>

theorem null_hall_rows_ignored:
  assumes "has_col df ''Day''" "has_col df ''Time''" "has_col df ''Lecture Hall''"
  shows "detect_conflicts (drop_null_halls df) = detect_conflicts df"
proof -
  have "detect_conflicts (drop_null_halls df) =
      (if conflict_keys df = [] then Inr []
       else if has_col df ''Course Code''
       then Inr (map (\<lambda>k. mk_conflict k (map (\<lambda>r. r ''Course Code'') (group_rows (rows df) k)))
                   (conflict_keys df))
       else Inl (KeyError ''Course Code''))"
    using detect_conflicts_cases [of "drop_null_halls df"] assms
    by (simp only: has_col_drop_null conflict_keys_drop_null rows_drop_null group_rows_drop_null
        simp_thms)
  then show ?thesis
    by (simp only: detect_conflicts_cases [OF assms])
qed

lemma null_hall_columns:
  "has_col (load_timetable NaAsText (Some null_hall_raw)) ''Day''"
  "has_col (load_timetable NaAsText (Some null_hall_raw)) ''Time''"
  "has_col (load_timetable NaAsText (Some null_hall_raw)) ''Lecture Hall''"
  by code_simp+

theorem null_hall_rows_ignored_witness:
  "has_col (load_timetable NaAsText (Some null_hall_raw)) ''Day'' \<and>
   has_col (load_timetable NaAsText (Some null_hall_raw)) ''Time'' \<and>
   has_col (load_timetable NaAsText (Some null_hall_raw)) ''Lecture Hall'' \<and>
   detect_conflicts (drop_null_halls (load_timetable NaAsText (Some null_hall_raw))) =
     detect_conflicts (load_timetable NaAsText (Some null_hall_raw))"
  using null_hall_columns null_hall_rows_ignored [OF null_hall_columns] by blast

theorem null_hall_pair_not_reported:
  "map (\<lambda>r. (r ''Day'', r ''Time'', r ''Lecture Hall''))
     (rows (load_timetable NaAsText (Some null_hall_raw))) =
     [(Some ''Monday'', Some ''09:00-10:00'', None), (Some ''Monday'', Some ''09:00-10:00'', None)] \<and>
   detect_conflicts (load_timetable NaAsText (Some null_hall_raw)) = Inr [] \<and>
   map (\<lambda>r. (r ''Day'', r ''Time'', r ''Lecture Hall''))
     (rows (load_timetable NaKept (Some null_hall_raw))) =
     [(Some ''Monday'', Some ''09:00-10:00'', None), (Some ''Monday'', Some ''09:00-10:00'', None)] \<and>
   detect_conflicts (load_timetable NaKept (Some null_hall_raw)) = Inr []"
  by code_simp

section \<open>Appending a record\<close>

lemma find_mk_conflict:
  "find (\<lambda>c. slot_of c = k) (map (\<lambda>k. mk_conflict k (g k)) ks) =
     (if k \<in> set ks then Some (mk_conflict k (g k)) else None)"
  by (induction ks) auto

lemma report_count_conflicts:
  "report_count (map (\<lambda>k. mk_conflict k (map f (group_rows rs k))) ks) k =
     (if k \<in> set ks then length (group_rows rs k) else 0)"
  by (simp add: report_count_def find_mk_conflict)

lemma has_col_append_row [simp]: "has_col (append_row df r) c = has_col df c"
  by (simp add: has_col_def append_row_def)

lemma group_rows_append_row:
  "group_rows (rows (append_row df r')) k =
     group_rows (rows df) k @ (if row_key r' = Some k then [r'] else [])"
  by (simp add: group_rows_def append_row_def)

text \<open>
  Claim C7, amended. On a dataset with the four columns, appending one more record to a
  slot (day, time, hall, none of them missing) that some record already holds makes the
  number of courses the report lists for that slot strictly larger: afterwards the slot
  is reported with one course more than it has records before, and where it held
  exactly one record it was not reported before and is reported after.
\<close>

theorem conflict_monotone:
  assumes "has_col df ''Day''" "has_col df ''Time''" "has_col df ''Lecture Hall''"
    "has_col df ''Course Code''"
    and "r \<in> set (rows df)" "row_key r = Some k" "row_key r' = Some k"
  shows "\<exists>cs cs'. detect_conflicts df = Inr cs \<and> detect_conflicts (append_row df r') = Inr cs' \<and>
           report_count cs k < report_count cs' k \<and>
           report_count cs' k = Suc (length (group_rows (rows df) k)) \<and>
           (\<exists>c \<in> set cs'. slot_of c = k) \<and>
           (length (group_rows (rows df) k) = 1 \<longrightarrow> \<not> (\<exists>c \<in> set cs. slot_of c = k))"
proof -
  let ?df' = "append_row df r'"
  define cs where "cs = map (\<lambda>k. mk_conflict k (map (\<lambda>r. r ''Course Code'') (group_rows (rows df) k)))
      (conflict_keys df)"
  define cs' where "cs' = map (\<lambda>k. mk_conflict k (map (\<lambda>r. r ''Course Code'') (group_rows (rows ?df') k)))
      (conflict_keys ?df')"
  have res: "detect_conflicts df = Inr cs"
    unfolding cs_def by (rule detect_conflicts_returns [OF assms(1-4)])
  have res': "detect_conflicts ?df' = Inr cs'"
    unfolding cs'_def using assms(1-4) by (intro detect_conflicts_returns) simp_all
  have n: "0 < length (group_rows (rows df) k)"
    using assms(5,6) by (auto simp: group_rows_def filter_empty_conv)
  have len': "length (group_rows (rows ?df') k) = Suc (length (group_rows (rows df) k))"
    using assms(7) by (simp add: group_rows_append_row)
  then have in': "k \<in> set (conflict_keys ?df')"
    using n by (simp add: set_conflict_keys)
  have cnt': "report_count cs' k = Suc (length (group_rows (rows df) k))"
    unfolding cs'_def report_count_conflicts using in' len' by simp
  have cnt: "report_count cs k \<le> length (group_rows (rows df) k)"
    unfolding cs_def report_count_conflicts by simp
  have slots: "map slot_of cs = conflict_keys df" "map slot_of cs' = conflict_keys ?df'"
    by (simp_all add: cs_def cs'_def comp_def)
  have mem: "(\<exists>c \<in> set cs. slot_of c = k) \<longleftrightarrow> k \<in> set (conflict_keys df)"
    unfolding slots(1) [symmetric] by auto
  have mem': "(\<exists>c \<in> set cs'. slot_of c = k) \<longleftrightarrow> k \<in> set (conflict_keys ?df')"
    unfolding slots(2) [symmetric] by auto
  have one: "length (group_rows (rows df) k) = 1 \<longrightarrow> \<not> (\<exists>c \<in> set cs. slot_of c = k)"
    unfolding mem by (simp add: set_conflict_keys)
  show ?thesis
    using res res' cnt cnt' mem' in' one by (intro exI [of _ cs] exI [of _ cs']) simp
qed

lemma eb_row_facts:
  "eb_row \<in> set (rows sample)"
  "row_key eb_row = Some (''Monday'', ''09:00-10:00'', ''EB'')"
  "row_key eb_extra = Some (''Monday'', ''09:00-10:00'', ''EB'')"
  by (simp_all add: sample_def eb_row_def eb_extra_def row_key_def mk_row_def)

theorem conflict_monotone_witness:
  "has_col sample ''Day'' \<and> has_col sample ''Time'' \<and> has_col sample ''Lecture Hall'' \<and>
   has_col sample ''Course Code'' \<and> eb_row \<in> set (rows sample) \<and>
   row_key eb_row = Some (''Monday'', ''09:00-10:00'', ''EB'') \<and>
   row_key eb_extra = Some (''Monday'', ''09:00-10:00'', ''EB'') \<and>
   (\<exists>cs cs'. detect_conflicts sample = Inr cs \<and>
      detect_conflicts (append_row sample eb_extra) = Inr cs' \<and>
      report_count cs (''Monday'', ''09:00-10:00'', ''EB'') <
        report_count cs' (''Monday'', ''09:00-10:00'', ''EB'') \<and>
      report_count cs' (''Monday'', ''09:00-10:00'', ''EB'') =
        Suc (length (group_rows (rows sample) (''Monday'', ''09:00-10:00'', ''EB''))) \<and>
      (\<exists>c \<in> set cs'. slot_of c = (''Monday'', ''09:00-10:00'', ''EB'')) \<and>
      (length (group_rows (rows sample) (''Monday'', ''09:00-10:00'', ''EB'')) = 1 \<longrightarrow>
         \<not> (\<exists>c \<in> set cs. slot_of c = (''Monday'', ''09:00-10:00'', ''EB''))))"
  using sample_columns eb_row_facts conflict_monotone [OF sample_columns eb_row_facts]
  by blast

theorem null_hall_append_adds_nothing:
  "map (\<lambda>r. (r ''Day'', r ''Time'', r ''Lecture Hall''))
     (rows (load_timetable NaAsText (Some single_null_raw))) =
     [(Some ''Monday'', Some ''09:00-10:00'', None)] \<and>
   (null_extra ''Day'', null_extra ''Time'', null_extra ''Lecture Hall'') =
     (Some ''Monday'', Some ''09:00-10:00'', None) \<and>
   detect_conflicts (load_timetable NaAsText (Some single_null_raw)) = Inr [] \<and>
   detect_conflicts (append_row (load_timetable NaAsText (Some single_null_raw)) null_extra) = Inr [] \<and>
   map (\<lambda>r. (r ''Day'', r ''Time'', r ''Lecture Hall''))
     (rows (load_timetable NaKept (Some single_null_raw))) =
     [(Some ''Monday'', Some ''09:00-10:00'', None)] \<and>
   detect_conflicts (load_timetable NaKept (Some single_null_raw)) = Inr [] \<and>
   detect_conflicts (append_row (load_timetable NaKept (Some single_null_raw)) null_extra) = Inr []"
  by code_simp

section \<open>The time query\<close>

lemma char_match_literal: "p \<noteq> CHR ''.'' \<Longrightarrow> char_match p c \<longleftrightarrow> lower_char p = lower_char c"
  by (simp add: char_match_def)

lemma match_here_literal:
  "CHR ''.'' \<notin> set p \<Longrightarrow> match_here p t \<longleftrightarrow> prefix (str_lower p) (str_lower t)"
proof (induction p t rule: match_here.induct)
  case (1 t)
  then show ?case by (simp add: str_lower_def)
next
  case (2 p ps)
  then show ?case by (simp add: str_lower_def)
next
  case (3 p ps c cs)
  then show ?case by (auto simp: str_lower_def char_match_literal)
qed

lemma re_search_literal:
  "CHR ''.'' \<notin> set p \<Longrightarrow> re_search p t \<longleftrightarrow> sublist (str_lower p) (str_lower t)"
proof (induction t)
  case Nil
  then show ?case by (cases p) (simp_all add: str_lower_def)
next
  case (Cons c cs)
  have "sublist (str_lower p) (str_lower (c # cs)) \<longleftrightarrow>
      prefix (str_lower p) (str_lower (c # cs)) \<or> sublist (str_lower p) (str_lower cs)"
    by (simp add: str_lower_def sublist_Cons_right)
  with Cons show ?case by (simp add: match_here_literal)
qed

lemma re_compile_literal:
  assumes "set p \<inter> set re_special = {}"
  shows "re_compile re_other p = Some (re_search p)"
proof -
  from assms have "list_all (\<lambda>c. c = CHR ''.'' \<or> c \<notin> set re_special) p"
    by (auto simp: list_all_iff)
  then show ?thesis by (simp add: re_compile_def)
qed

lemma no_dot_literal: "set p \<inter> set re_special = {} \<Longrightarrow> CHR ''.'' \<notin> set p"
  by (auto simp: re_special_def)

text \<open>
  Claim C2, amended. On a dataset with the Day, Time and Lecture Hall columns and for a
  query whose trimmed time holds none of the special characters of a regular expression,
  the availability query returns, and it marks a hall occupied exactly when some record
  with that hall has the title-cased, trimmed query day as its day and a time that
  contains the trimmed query time as a substring, letter case ignored.
\<close>

theorem occupied_iff_literal_query:
  assumes "has_col df ''Day''" "has_col df ''Time''" "has_col df ''Lecture Hall''"
    and "set (str_strip time) \<inter> set re_special = {}"
  shows "\<exists>free occ. get_free_halls re_other df day time = Inr (free, occ) \<and>
           (\<forall>h. h \<in> set occ \<longleftrightarrow>
              (\<exists>r \<in> set (rows df). r ''Lecture Hall'' = Some h \<and>
                 r ''Day'' = Some (str_title (str_strip day)) \<and>
                 (\<exists>t. r ''Time'' = Some t \<and>
                      sublist (str_lower (str_strip time)) (str_lower t))))"
proof (cases "df_empty df")
  case True
  with assms(1) have "rows df = []" by (auto simp: df_empty_def has_col_def)
  moreover from True have "get_free_halls re_other df day time = Inr ([], [])"
    by (simp add: get_free_halls_def)
  ultimately show ?thesis by simp
next
  case False
  let ?m = "re_search (str_strip time)"
  let ?occ = "sorted_set (dropna (map (\<lambda>r. r ''Lecture Hall'')
      (occupied_rows df (str_title (str_strip day)) ?m)))"
  have m: "re_compile re_other (str_strip time) = Some ?m"
    by (rule re_compile_literal [OF assms(4)])
  have lit: "?m t \<longleftrightarrow> sublist (str_lower (str_strip time)) (str_lower t)" for t
    by (rule re_search_literal [OF no_dot_literal [OF assms(4)]])
  have "h \<in> set ?occ \<longleftrightarrow>
      (\<exists>r \<in> set (rows df). r ''Lecture Hall'' = Some h \<and>
         r ''Day'' = Some (str_title (str_strip day)) \<and>
         (\<exists>t. r ''Time'' = Some t \<and> sublist (str_lower (str_strip time)) (str_lower t)))" for h
    unfolding set_sorted_set set_dropna_col occupied_rows_def
    by (auto simp: lit split: option.splits)
  then show ?thesis
    using get_free_halls_returns [OF False assms(1-3) m, of day] by blast
qed

lemma sample_literal: "set (str_strip ''09'') \<inter> set re_special = {}"
  by code_simp

theorem occupied_iff_literal_query_witness:
  "has_col sample ''Day'' \<and> has_col sample ''Time'' \<and> has_col sample ''Lecture Hall'' \<and>
   set (str_strip ''09'') \<inter> set re_special = {} \<and>
   (\<exists>free occ. get_free_halls (\<lambda>p. None) sample '' monday '' ''09'' = Inr (free, occ) \<and>
      (\<forall>h. h \<in> set occ \<longleftrightarrow>
         (\<exists>r \<in> set (rows sample). r ''Lecture Hall'' = Some h \<and>
            r ''Day'' = Some (str_title (str_strip '' monday '')) \<and>
            (\<exists>t. r ''Time'' = Some t \<and> sublist (str_lower (str_strip ''09'')) (str_lower t)))))"
  using sample_columns(1-3) sample_literal
    occupied_iff_literal_query [OF sample_columns(1-3) sample_literal, of "\<lambda>p. None" "'' monday ''"]
  by blast

theorem dot_query_matches_any_time:
  "get_free_halls (\<lambda>p. None) sample ''Monday'' ''.'' = Inr ([''LT1''], [''AB'', ''EB'']) \<and>
   map (\<lambda>r. r ''Time'') (rows sample) =
     [Some ''09:00-10:00'', Some ''09:00-10:00'', Some ''09:00-10:00'', Some ''11:00-12:00''] \<and>
   \<not> sublist (str_lower (str_strip ''.'')) (str_lower ''09:00-10:00'') \<and>
   \<not> sublist (str_lower (str_strip ''.'')) (str_lower ''11:00-12:00'')"
  by code_simp

section \<open>Missing columns\<close>

text \<open>
  Claim C3. \<open>load_timetable\<close>, \<open>chart_data\<close> and the figures of \<open>index\<close> test for a column
  before they read it; \<open>get_free_halls\<close> and \<open>detect_conflicts\<close> do not, and on a file with
  records but no Day column both raise \<open>KeyError\<close>.
\<close>

theorem missing_day_column_raises:
  "columns (load_timetable NaAsText (Some no_day_raw)) = [''Time'', ''Lecture Hall'', ''Course Code''] \<and>
   length (rows (load_timetable NaAsText (Some no_day_raw))) = 1 \<and>
   day_options (load_timetable NaAsText (Some no_day_raw)) = [] \<and>
   chart_data (load_timetable NaAsText (Some no_day_raw)) = ([''AB''], [1]) \<and>
   get_free_halls (\<lambda>p. None) (load_timetable NaAsText (Some no_day_raw)) ''Monday'' ''09'' =
     Inl (KeyError ''Day'') \<and>
   detect_conflicts (load_timetable NaAsText (Some no_day_raw)) = Inl (KeyError ''Day'') \<and>
   columns (load_timetable NaKept (Some no_day_raw)) = [''Time'', ''Lecture Hall'', ''Course Code''] \<and>
   length (rows (load_timetable NaKept (Some no_day_raw))) = 1 \<and>
   day_options (load_timetable NaKept (Some no_day_raw)) = [] \<and>
   chart_data (load_timetable NaKept (Some no_day_raw)) = ([''AB''], [1]) \<and>
   get_free_halls (\<lambda>p. None) (load_timetable NaKept (Some no_day_raw)) ''Monday'' ''09'' =
     Inl (KeyError ''Day'') \<and>
   detect_conflicts (load_timetable NaKept (Some no_day_raw)) = Inl (KeyError ''Day'')"
  by code_simp

section \<open>Usage counts\<close>

lemma count_list_dropna_col:
  "count_list (dropna (map f rs)) v = length (filter (\<lambda>r. f r = Some v) rs)"
proof (induction rs)
  case Nil
  then show ?case by simp
next
  case (Cons r rs)
  then show ?case by (cases "f r") auto
qed

lemma value_counts_sorted: "sorted_wrt (\<lambda>a b. b \<le> a) (map snd (value_counts s))"
proof -
  have "sorted (map (\<lambda>(v, n). - int n) (value_counts s))"
    by (simp add: value_counts_def Let_def)
  then have "sorted_wrt (\<lambda>p q. - int (snd p) \<le> - int (snd q)) (value_counts s)"
    by (simp add: sorted_map case_prod_beta)
  then have "sorted_wrt (\<lambda>p q. snd q \<le> snd p) (value_counts s)"
    by simp
  then show ?thesis by (simp add: sorted_wrt_map)
qed

lemma set_value_counts:
  "set (value_counts s) = (\<lambda>v. (v, count_list (dropna s) v)) ` set (dropna s)"
  by (simp add: value_counts_def Let_def del: set_dropna)

lemma distinct_value_counts: "distinct (map fst (value_counts s))"
proof -
  have "distinct (value_counts s)"
    by (simp add: value_counts_def Let_def distinct_map inj_on_def)
  moreover have "inj_on fst (set (value_counts s))"
    unfolding set_value_counts by (auto simp: inj_on_def)
  ultimately show ?thesis by (simp add: distinct_map)
qed

lemma value_counts_values:
  "map snd (value_counts s) = map (count_list (dropna s)) (map fst (value_counts s))"
proof -
  have "snd p = count_list (dropna s) (fst p)" if "p \<in> set (value_counts s)" for p
    using that unfolding set_value_counts by auto
  then show ?thesis by (simp add: comp_def)
qed

text \<open>
  Claim C8, amended. The labels of the chart data are the halls of the dataset, each
  once; the values are the numbers of records of the labels, in the same order; and the
  values are descending. Nothing orders halls of equal count by name.
\<close>

theorem chart_data_descending:
  "length (fst (chart_data df)) = length (snd (chart_data df)) \<and>
   sorted_wrt (\<lambda>a b. b \<le> a) (snd (chart_data df)) \<and>
   distinct (fst (chart_data df)) \<and>
   set (fst (chart_data df)) =
     {h. has_col df ''Lecture Hall'' \<and> (\<exists>r \<in> set (rows df). r ''Lecture Hall'' = Some h)} \<and>
   snd (chart_data df) =
     map (\<lambda>h. length (filter (\<lambda>r. r ''Lecture Hall'' = Some h) (rows df))) (fst (chart_data df))"
proof (cases "df_empty df \<or> \<not> has_col df ''Lecture Hall''")
  case True
  then have "chart_data df = ([], [])" by (simp add: chart_data_def)
  moreover from True have "\<not> has_col df ''Lecture Hall'' \<or> rows df = []"
    by (auto simp: df_empty_def has_col_def)
  ultimately show ?thesis by auto
next
  case False
  let ?s = "map (\<lambda>r. r ''Lecture Hall'') (rows df)"
  from False have cd: "chart_data df = (map fst (value_counts ?s), map snd (value_counts ?s))"
    by (simp add: chart_data_def Let_def)
  have labels: "set (map fst (value_counts ?s)) = {h. \<exists>r \<in> set (rows df). r ''Lecture Hall'' = Some h}"
    unfolding set_map set_value_counts set_dropna_col by force
  have vals: "map snd (value_counts ?s) =
      map (\<lambda>h. length (filter (\<lambda>r. r ''Lecture Hall'' = Some h) (rows df))) (map fst (value_counts ?s))"
  proof -
    have "count_list (dropna ?s) = (\<lambda>h. length (filter (\<lambda>r. r ''Lecture Hall'' = Some h) (rows df)))"
      by (rule ext) (rule count_list_dropna_col)
    with value_counts_values [of ?s] show ?thesis by (simp only:)
  qed
  show ?thesis
    unfolding cd fst_conv snd_conv
    using False labels vals value_counts_sorted [of ?s] distinct_value_counts [of ?s]
    by simp
qed

theorem chart_data_descending_witness:
  "fst (chart_data sample) = [''AB'', ''EB'', ''LT1''] \<and> snd (chart_data sample) = [2, 1, 1] \<and>
   length (fst (chart_data sample)) = length (snd (chart_data sample)) \<and>
   sorted_wrt (\<lambda>a b. b \<le> a) (snd (chart_data sample)) \<and>
   distinct (fst (chart_data sample)) \<and>
   set (fst (chart_data sample)) =
     {h. has_col sample ''Lecture Hall'' \<and> (\<exists>r \<in> set (rows sample). r ''Lecture Hall'' = Some h)} \<and>
   snd (chart_data sample) =
     map (\<lambda>h. length (filter (\<lambda>r. r ''Lecture Hall'' = Some h) (rows sample))) (fst (chart_data sample))"
proof -
  have "fst (chart_data sample) = [''AB'', ''EB'', ''LT1'']" "snd (chart_data sample) = [2, 1, 1]"
    by code_simp+
  then show ?thesis
    using chart_data_descending [of sample] by blast
qed

theorem tie_keeps_file_order:
  "chart_data (load_timetable NaAsText (Some tie_raw)) = ([''B'', ''A''], [1, 1]) \<and>
   value_counts (map (\<lambda>r. r ''Lecture Hall'') (rows (load_timetable NaAsText (Some tie_raw)))) =
     [(''B'', 1), (''A'', 1)] \<and>
   chart_data (load_timetable NaKept (Some tie_raw)) = ([''B'', ''A''], [1, 1]) \<and>
   value_counts (map (\<lambda>r. r ''Lecture Hall'') (rows (load_timetable NaKept (Some tie_raw)))) =
     [(''B'', 1), (''A'', 1)] \<and>
   ''A'' < ''B''"
  by code_simp

section \<open>Loading\<close>

lemma find_distinct_key:
  "distinct (map f xs) \<Longrightarrow> c \<in> set xs \<Longrightarrow> find (\<lambda>x. f x = f c) xs = Some c"
proof (induction xs)
  case Nil
  then show ?case by simp
next
  case (Cons x xs)
  then show ?case by (auto simp: image_iff)
qed

lemma has_col_apply_col [simp]: "has_col (apply_col c g df) k = has_col df k"
  by (simp add: has_col_def apply_col_def)

lemma rows_apply_col: "rows (apply_col c g df) = map (\<lambda>r. r(c := g (r c))) (rows df)"
  by (simp add: apply_col_def)

lemma has_col_rename: "has_col (rename_columns f df) k \<longleftrightarrow> k \<in> f ` set (columns df)"
  by (simp add: has_col_def rename_columns_def)

lemma rows_rename:
  "rows (rename_columns f df) =
     map (\<lambda>r k. case find (\<lambda>c. f c = k) (columns df) of None \<Rightarrow> None | Some c \<Rightarrow> r c) (rows df)"
  by (simp add: rename_columns_def)

lemma length_rows_load [simp]: "length (rows (load_timetable na_mode (Some raw))) = length (rows raw)"
  by (simp add: load_timetable_def Let_def rows_apply_col rows_rename)

lemma has_col_load:
  "has_col (load_timetable na_mode (Some raw)) k \<longleftrightarrow> k \<in> (\<lambda>c. str_title (str_strip c)) ` set (columns raw)"
  by (simp add: load_timetable_def Let_def has_col_rename)

lemma load_cells:
  assumes "distinct (map (\<lambda>c. str_title (str_strip c)) (columns raw))"
    and "c \<in> set (columns raw)" and "i < length (rows raw)"
  shows "str_title (str_strip c) = ''Day'' \<Longrightarrow>
           (rows (load_timetable na_mode (Some raw)) ! i) ''Day'' =
             str_method str_title (str_method str_strip (astype_str na_mode ((rows raw ! i) c)))"
    and "str_title (str_strip c) = ''Time'' \<Longrightarrow>
           (rows (load_timetable na_mode (Some raw)) ! i) ''Time'' =
             str_method str_strip (astype_str na_mode ((rows raw ! i) c))"
    and "str_title (str_strip c) = ''Lecture Hall'' \<Longrightarrow>
           (rows (load_timetable na_mode (Some raw)) ! i) ''Lecture Hall'' = clean_hall_name ((rows raw ! i) c)"
proof -
  let ?f = "\<lambda>c. str_title (str_strip c)"
  have fnd: "find (\<lambda>x. ?f x = ?f c) (columns raw) = Some c"
    by (rule find_distinct_key [OF assms(1,2)])
  have col: "has_col (rename_columns ?f raw) (?f c)"
    using assms(2) by (simp add: has_col_rename)
  show "?f c = ''Day'' \<Longrightarrow>
      (rows (load_timetable na_mode (Some raw)) ! i) ''Day'' =
        str_method str_title (str_method str_strip (astype_str na_mode ((rows raw ! i) c)))"
    using fnd col assms(3)
    by (simp add: load_timetable_def Let_def rows_apply_col rows_rename)
  show "?f c = ''Time'' \<Longrightarrow>
      (rows (load_timetable na_mode (Some raw)) ! i) ''Time'' =
        str_method str_strip (astype_str na_mode ((rows raw ! i) c))"
    using fnd col assms(3)
    by (simp add: load_timetable_def Let_def rows_apply_col rows_rename)
  show "?f c = ''Lecture Hall'' \<Longrightarrow>
      (rows (load_timetable na_mode (Some raw)) ! i) ''Lecture Hall'' = clean_hall_name ((rows raw ! i) c)"
    using fnd col assms(3)
    by (simp add: load_timetable_def Let_def rows_apply_col rows_rename)
qed

lemma nan_cells:
  "str_method str_title (str_method str_strip (astype_str NaAsText None)) = Some ''Nan''"
  "str_method str_strip (astype_str NaAsText None) = Some ''nan''"
  "str_method str_title (str_method str_strip (astype_str NaKept None)) = None"
  "str_method str_strip (astype_str NaKept None) = None"
  "str_method str_title (Some ''nan'') = Some ''Nan''"
  "str_method str_title None = None"
  by code_simp+

lemma nan_query:
  "str_title (str_strip ''nan'') = ''Nan''" "set (str_strip ''nan'') \<inter> set re_special = {}"
  "sublist (str_lower (str_strip ''nan'')) (str_lower ''nan'')"
  by code_simp+

lemma row_key_missing:
  "r ''Day'' = None \<or> r ''Time'' = None \<Longrightarrow> row_key r = None"
  by (auto simp: row_key_def split: option.splits)

lemma occupied_rows_missing:
  "r ''Day'' = None \<or> r ''Time'' = None \<Longrightarrow> r \<notin> set (occupied_rows df day m)"
  by (auto simp: occupied_rows_def)

lemma set_options:
  "set (day_options df) = {d. has_col df ''Day'' \<and> (\<exists>r \<in> set (rows df). r ''Day'' = Some d)}"
  "set (time_options df) = {t. has_col df ''Time'' \<and> (\<exists>r \<in> set (rows df). r ''Time'' = Some t)}"
  by (simp_all add: day_options_def time_options_def set_dropna_col del: set_dropna)

lemma occupied_member:
  assumes "has_col df ''Day''" "has_col df ''Time''" "has_col df ''Lecture Hall''"
    and "set (str_strip time) \<inter> set re_special = {}"
    and "r \<in> set (rows df)" "r ''Lecture Hall'' = Some h"
    and "r ''Day'' = Some (str_title (str_strip day))"
    and "r ''Time'' = Some t" "sublist (str_lower (str_strip time)) (str_lower t)"
  shows "\<exists>free occ. get_free_halls re_other df day time = Inr (free, occ) \<and> h \<in> set occ"
proof -
  from assms(1,5) have ne: "\<not> df_empty df"
    by (auto simp: df_empty_def has_col_def)
  let ?m = "re_search (str_strip time)"
  have m: "re_compile re_other (str_strip time) = Some ?m"
    by (rule re_compile_literal [OF assms(4)])
  have "?m t"
    using assms(9) by (simp add: re_search_literal [OF no_dot_literal [OF assms(4)]])
  then have "r \<in> set (occupied_rows df (str_title (str_strip day)) ?m)"
    using assms(5,7,8) by (simp add: occupied_rows_def)
  then have "h \<in> set (sorted_set (dropna (map (\<lambda>r. r ''Lecture Hall'')
      (occupied_rows df (str_title (str_strip day)) ?m))))"
    unfolding set_sorted_set set_dropna_col using assms(6) by blast
  then show ?thesis
    using get_free_halls_returns [OF ne assms(1-3) m, of day] by blast
qed

lemma two_in_filter:
  assumes "i < length xs" "j < length xs" "i \<noteq> j" "P (xs ! i)" "P (xs ! j)"
  shows "1 < length (filter P xs)"
proof -
  have "{i, j} \<subseteq> {k. k < length xs \<and> P (xs ! k)}"
    using assms by auto
  then have "card {i, j} \<le> card {k. k < length xs \<and> P (xs ! k)}"
    by (intro card_mono) auto
  then show ?thesis
    using assms(3) by (simp add: length_filter_conv_card)
qed

lemma conflict_member:
  assumes "has_col df ''Day''" "has_col df ''Time''" "has_col df ''Lecture Hall''"
    "has_col df ''Course Code''"
    and "i < length (rows df)" "j < length (rows df)" "i \<noteq> j"
    and "row_key (rows df ! i) = Some k" "row_key (rows df ! j) = Some k"
  shows "\<exists>cs. detect_conflicts df = Inr cs \<and> (\<exists>c \<in> set cs. slot_of c = k)"
proof -
  have "1 < length (group_rows (rows df) k)"
    unfolding group_rows_def
    using two_in_filter [of i "rows df" j "\<lambda>r. row_key r = Some k"] assms(5-9) by simp
  then have "k \<in> set (conflict_keys df)"
    by (simp add: set_conflict_keys)
  then show ?thesis
    unfolding detect_conflicts_returns [OF assms(1-4)] by force
qed

text \<open>
  Claim C10, amended. Where \<open>astype(str)\<close> turns a missing value into text (pandas
  before 3.0), a missing Day cell is loaded as the day "Nan" and a missing Time cell as
  the time "nan"; such records are kept: the texts appear among the day and time options,
  a query for the day "nan" (or the time "nan") marks the record's hall occupied, and two
  such records of one slot are reported as a conflict under "Nan" (or "nan"). Where
  \<open>astype(str)\<close> keeps a missing value missing (pandas 3.0 and later), the cell stays
  missing, the record belongs to no group and no availability query selects it.
\<close>

theorem missing_day_time_cells:
  assumes "distinct (map (\<lambda>c. str_title (str_strip c)) (columns raw))"
    and "i < length (rows raw)"
  shows
    "(\<forall>c \<in> set (columns raw). str_title (str_strip c) = ''Day'' \<and> (rows raw ! i) c = None \<longrightarrow>
        (rows (load_timetable NaAsText (Some raw)) ! i) ''Day'' = Some ''Nan'' \<and>
        ''Nan'' \<in> set (day_options (load_timetable NaAsText (Some raw)))) \<and>
     (\<forall>c \<in> set (columns raw). str_title (str_strip c) = ''Time'' \<and> (rows raw ! i) c = None \<longrightarrow>
        (rows (load_timetable NaAsText (Some raw)) ! i) ''Time'' = Some ''nan'' \<and>
        ''nan'' \<in> set (time_options (load_timetable NaAsText (Some raw)))) \<and>
     (\<forall>h t q. has_col (load_timetable NaAsText (Some raw)) ''Day'' \<and>
        has_col (load_timetable NaAsText (Some raw)) ''Time'' \<and>
        has_col (load_timetable NaAsText (Some raw)) ''Lecture Hall'' \<and>
        (rows (load_timetable NaAsText (Some raw)) ! i) ''Day'' = Some ''Nan'' \<and>
        (rows (load_timetable NaAsText (Some raw)) ! i) ''Time'' = Some t \<and>
        (rows (load_timetable NaAsText (Some raw)) ! i) ''Lecture Hall'' = Some h \<and>
        set (str_strip q) \<inter> set re_special = {} \<and>
        sublist (str_lower (str_strip q)) (str_lower t) \<longrightarrow>
        (\<exists>free occ. get_free_halls re_other (load_timetable NaAsText (Some raw)) ''nan'' q = Inr (free, occ) \<and>
           h \<in> set occ)) \<and>
     (\<forall>h d. has_col (load_timetable NaAsText (Some raw)) ''Day'' \<and>
        has_col (load_timetable NaAsText (Some raw)) ''Time'' \<and>
        has_col (load_timetable NaAsText (Some raw)) ''Lecture Hall'' \<and>
        (rows (load_timetable NaAsText (Some raw)) ! i) ''Day'' = Some (str_title (str_strip d)) \<and>
        (rows (load_timetable NaAsText (Some raw)) ! i) ''Time'' = Some ''nan'' \<and>
        (rows (load_timetable NaAsText (Some raw)) ! i) ''Lecture Hall'' = Some h \<longrightarrow>
        (\<exists>free occ. get_free_halls re_other (load_timetable NaAsText (Some raw)) d ''nan'' = Inr (free, occ) \<and>
           h \<in> set occ)) \<and>
     (\<forall>j d t h. j < length (rows raw) \<and> j \<noteq> i \<and> (d = ''Nan'' \<or> t = ''nan'') \<and>
        has_col (load_timetable NaAsText (Some raw)) ''Day'' \<and>
        has_col (load_timetable NaAsText (Some raw)) ''Time'' \<and>
        has_col (load_timetable NaAsText (Some raw)) ''Lecture Hall'' \<and>
        has_col (load_timetable NaAsText (Some raw)) ''Course Code'' \<and>
        row_key (rows (load_timetable NaAsText (Some raw)) ! i) = Some (d, t, h) \<and>
        row_key (rows (load_timetable NaAsText (Some raw)) ! j) = Some (d, t, h) \<longrightarrow>
        (\<exists>cs. detect_conflicts (load_timetable NaAsText (Some raw)) = Inr cs \<and>
           (\<exists>c \<in> set cs. slot_of c = (d, t, h)))) \<and>
     (\<forall>c \<in> set (columns raw). str_title (str_strip c) = ''Day'' \<and> (rows raw ! i) c = None \<longrightarrow>
        (rows (load_timetable NaKept (Some raw)) ! i) ''Day'' = None \<and>
        row_key (rows (load_timetable NaKept (Some raw)) ! i) = None \<and>
        (\<forall>day m. rows (load_timetable NaKept (Some raw)) ! i \<notin>
           set (occupied_rows (load_timetable NaKept (Some raw)) day m))) \<and>
     (\<forall>c \<in> set (columns raw). str_title (str_strip c) = ''Time'' \<and> (rows raw ! i) c = None \<longrightarrow>
        (rows (load_timetable NaKept (Some raw)) ! i) ''Time'' = None \<and>
        row_key (rows (load_timetable NaKept (Some raw)) ! i) = None \<and>
        (\<forall>day m. rows (load_timetable NaKept (Some raw)) ! i \<notin>
           set (occupied_rows (load_timetable NaKept (Some raw)) day m)))"
proof -
  define L where "L = load_timetable NaAsText (Some raw)"
  have len: "length (rows L) = length (rows raw)"
    by (simp add: L_def)
  have mem: "rows L ! i \<in> set (rows L)"
    using assms(2) len by simp
  have day: "(rows L ! i) ''Day'' = Some ''Nan'' \<and> ''Nan'' \<in> set (day_options L)"
    if "c \<in> set (columns raw)" "str_title (str_strip c) = ''Day''" "(rows raw ! i) c = None" for c
  proof -
    have cell: "(rows L ! i) ''Day'' = Some ''Nan''"
      unfolding L_def load_cells(1) [OF assms(1) that(1) assms(2) that(2)]
      by (simp only: that(3) nan_cells)
    moreover have "has_col L ''Day''"
      unfolding L_def has_col_load using that(1,2) by force
    ultimately show ?thesis
      using mem unfolding set_options by blast
  qed
  have time: "(rows L ! i) ''Time'' = Some ''nan'' \<and> ''nan'' \<in> set (time_options L)"
    if "c \<in> set (columns raw)" "str_title (str_strip c) = ''Time''" "(rows raw ! i) c = None" for c
  proof -
    have cell: "(rows L ! i) ''Time'' = Some ''nan''"
      unfolding L_def load_cells(2) [OF assms(1) that(1) assms(2) that(2)]
      by (simp only: that(3) nan_cells)
    moreover have "has_col L ''Time''"
      unfolding L_def has_col_load using that(1,2) by force
    ultimately show ?thesis
      using mem unfolding set_options by blast
  qed
  have q_day: "\<exists>free occ. get_free_halls re_other L ''nan'' q = Inr (free, occ) \<and> h \<in> set occ"
    if "has_col L ''Day''" "has_col L ''Time''" "has_col L ''Lecture Hall''"
      "(rows L ! i) ''Day'' = Some ''Nan''" "(rows L ! i) ''Time'' = Some t"
      "(rows L ! i) ''Lecture Hall'' = Some h" "set (str_strip q) \<inter> set re_special = {}"
      "sublist (str_lower (str_strip q)) (str_lower t)" for h t q
    using that(4) by (intro occupied_member [OF that(1-3) that(7) mem that(6) _ that(5) that(8)])
      (simp only: nan_query)
  have q_time: "\<exists>free occ. get_free_halls re_other L d ''nan'' = Inr (free, occ) \<and> h \<in> set occ"
    if "has_col L ''Day''" "has_col L ''Time''" "has_col L ''Lecture Hall''"
      "(rows L ! i) ''Day'' = Some (str_title (str_strip d))" "(rows L ! i) ''Time'' = Some ''nan''"
      "(rows L ! i) ''Lecture Hall'' = Some h" for h d
    by (rule occupied_member [OF that(1-3) nan_query(2) mem that(6) that(4) that(5)])
      (rule nan_query(3))
  have conf: "\<exists>cs. detect_conflicts L = Inr cs \<and> (\<exists>c \<in> set cs. slot_of c = k)"
    if "j < length (rows raw)" "j \<noteq> i" "has_col L ''Day''" "has_col L ''Time''"
      "has_col L ''Lecture Hall''" "has_col L ''Course Code''"
      "row_key (rows L ! i) = Some k" "row_key (rows L ! j) = Some k" for j k
    using conflict_member [OF that(3-6), of i j k] that(1,2,7,8) assms(2) len by simp
  define K where "K = load_timetable NaKept (Some raw)"
  have kday: "(rows K ! i) ''Day'' = None \<and> row_key (rows K ! i) = None \<and>
      (\<forall>day m. rows K ! i \<notin> set (occupied_rows K day m))"
    if "c \<in> set (columns raw)" "str_title (str_strip c) = ''Day''" "(rows raw ! i) c = None" for c
  proof -
    have cell: "(rows K ! i) ''Day'' = None"
      unfolding K_def load_cells(1) [OF assms(1) that(1) assms(2) that(2)]
      by (simp only: that(3) nan_cells)
    then show ?thesis
      using row_key_missing [of "rows K ! i"] occupied_rows_missing [of "rows K ! i" K] by blast
  qed
  have ktime: "(rows K ! i) ''Time'' = None \<and> row_key (rows K ! i) = None \<and>
      (\<forall>day m. rows K ! i \<notin> set (occupied_rows K day m))"
    if "c \<in> set (columns raw)" "str_title (str_strip c) = ''Time''" "(rows raw ! i) c = None" for c
  proof -
    have cell: "(rows K ! i) ''Time'' = None"
      unfolding K_def load_cells(2) [OF assms(1) that(1) assms(2) that(2)]
      by (simp only: that(3) nan_cells)
    then show ?thesis
      using row_key_missing [of "rows K ! i"] occupied_rows_missing [of "rows K ! i" K] by blast
  qed
  have legacy: "(\<forall>c \<in> set (columns raw). str_title (str_strip c) = ''Day'' \<and> (rows raw ! i) c = None \<longrightarrow>
        (rows L ! i) ''Day'' = Some ''Nan'' \<and> ''Nan'' \<in> set (day_options L)) \<and>
     (\<forall>c \<in> set (columns raw). str_title (str_strip c) = ''Time'' \<and> (rows raw ! i) c = None \<longrightarrow>
        (rows L ! i) ''Time'' = Some ''nan'' \<and> ''nan'' \<in> set (time_options L)) \<and>
     (\<forall>h t q. has_col L ''Day'' \<and> has_col L ''Time'' \<and> has_col L ''Lecture Hall'' \<and>
        (rows L ! i) ''Day'' = Some ''Nan'' \<and> (rows L ! i) ''Time'' = Some t \<and>
        (rows L ! i) ''Lecture Hall'' = Some h \<and>
        set (str_strip q) \<inter> set re_special = {} \<and>
        sublist (str_lower (str_strip q)) (str_lower t) \<longrightarrow>
        (\<exists>free occ. get_free_halls re_other L ''nan'' q = Inr (free, occ) \<and> h \<in> set occ)) \<and>
     (\<forall>h d. has_col L ''Day'' \<and> has_col L ''Time'' \<and> has_col L ''Lecture Hall'' \<and>
        (rows L ! i) ''Day'' = Some (str_title (str_strip d)) \<and>
        (rows L ! i) ''Time'' = Some ''nan'' \<and>
        (rows L ! i) ''Lecture Hall'' = Some h \<longrightarrow>
        (\<exists>free occ. get_free_halls re_other L d ''nan'' = Inr (free, occ) \<and> h \<in> set occ)) \<and>
     (\<forall>j d t h. j < length (rows raw) \<and> j \<noteq> i \<and> (d = ''Nan'' \<or> t = ''nan'') \<and>
        has_col L ''Day'' \<and> has_col L ''Time'' \<and> has_col L ''Lecture Hall'' \<and>
        has_col L ''Course Code'' \<and>
        row_key (rows L ! i) = Some (d, t, h) \<and> row_key (rows L ! j) = Some (d, t, h) \<longrightarrow>
        (\<exists>cs. detect_conflicts L = Inr cs \<and> (\<exists>c \<in> set cs. slot_of c = (d, t, h))))"
    using day time q_day q_time conf by blast
  have kept: "(\<forall>c \<in> set (columns raw). str_title (str_strip c) = ''Day'' \<and> (rows raw ! i) c = None \<longrightarrow>
        (rows K ! i) ''Day'' = None \<and> row_key (rows K ! i) = None \<and>
        (\<forall>day m. rows K ! i \<notin> set (occupied_rows K day m))) \<and>
     (\<forall>c \<in> set (columns raw). str_title (str_strip c) = ''Time'' \<and> (rows raw ! i) c = None \<longrightarrow>
        (rows K ! i) ''Time'' = None \<and> row_key (rows K ! i) = None \<and>
        (\<forall>day m. rows K ! i \<notin> set (occupied_rows K day m)))"
    using kday ktime by blast
  from legacy kept show ?thesis
    unfolding L_def [symmetric] K_def [symmetric]
    by (elim conjE, intro conjI) assumption+
qed



lemma nan_raw_facts:
  "distinct (map (\<lambda>c. str_title (str_strip c)) (columns nan_raw))"
  "0 < length (rows nan_raw)" "2 < length (rows nan_raw)"
  "'' day'' \<in> set (columns nan_raw)" "str_title (str_strip '' day'') = ''Day''"
  "(rows nan_raw ! 0) '' day'' = None"
  "''TIME '' \<in> set (columns nan_raw)" "str_title (str_strip ''TIME '') = ''Time''"
  "(rows nan_raw ! 2) ''TIME '' = None"
  by code_simp+

lemma nan_loaded_facts:
  "has_col (load_timetable NaAsText (Some nan_raw)) ''Day''"
  "has_col (load_timetable NaAsText (Some nan_raw)) ''Time''"
  "has_col (load_timetable NaAsText (Some nan_raw)) ''Lecture Hall''"
  "has_col (load_timetable NaAsText (Some nan_raw)) ''Course Code''"
  "(rows (load_timetable NaAsText (Some nan_raw)) ! 0) ''Time'' = Some ''09:00-10:00''"
  "(rows (load_timetable NaAsText (Some nan_raw)) ! 0) ''Lecture Hall'' = Some ''EB''"
  "set (str_strip ''09'') \<inter> set re_special = {}"
  "sublist (str_lower (str_strip ''09'')) (str_lower ''09:00-10:00'')"
  "(rows (load_timetable NaAsText (Some nan_raw)) ! 2) ''Day'' = Some (str_title (str_strip ''monday''))"
  "(rows (load_timetable NaAsText (Some nan_raw)) ! 2) ''Lecture Hall'' = Some ''AB''"
  "row_key (rows (load_timetable NaAsText (Some nan_raw)) ! 0) = Some (''Nan'', ''09:00-10:00'', ''EB'')"
  "row_key (rows (load_timetable NaAsText (Some nan_raw)) ! 1) = Some (''Nan'', ''09:00-10:00'', ''EB'')"
  "row_key (rows (load_timetable NaAsText (Some nan_raw)) ! 2) = Some (''Monday'', ''nan'', ''AB'')"
  "row_key (rows (load_timetable NaAsText (Some nan_raw)) ! 3) = Some (''Monday'', ''nan'', ''AB'')"
  "1 < length (rows nan_raw)" "3 < length (rows nan_raw)"
  by code_simp+

theorem missing_day_time_cells_witness:
  "distinct (map (\<lambda>c. str_title (str_strip c)) (columns nan_raw)) \<and>
   0 < length (rows nan_raw) \<and> 2 < length (rows nan_raw) \<and>
   '' day'' \<in> set (columns nan_raw) \<and> str_title (str_strip '' day'') = ''Day'' \<and>
   (rows nan_raw ! 0) '' day'' = None \<and>
   ''TIME '' \<in> set (columns nan_raw) \<and> str_title (str_strip ''TIME '') = ''Time'' \<and>
   (rows nan_raw ! 2) ''TIME '' = None \<and>
   (rows (load_timetable NaAsText (Some nan_raw)) ! 0) ''Day'' = Some ''Nan'' \<and>
   ''Nan'' \<in> set (day_options (load_timetable NaAsText (Some nan_raw))) \<and>
   (rows (load_timetable NaAsText (Some nan_raw)) ! 2) ''Time'' = Some ''nan'' \<and>
   ''nan'' \<in> set (time_options (load_timetable NaAsText (Some nan_raw))) \<and>
   (\<exists>free occ. get_free_halls (\<lambda>p. None) (load_timetable NaAsText (Some nan_raw)) ''nan'' ''09'' =
        Inr (free, occ) \<and> ''EB'' \<in> set occ) \<and>
   (\<exists>free occ. get_free_halls (\<lambda>p. None) (load_timetable NaAsText (Some nan_raw)) ''monday'' ''nan'' =
        Inr (free, occ) \<and> ''AB'' \<in> set occ) \<and>
   (\<exists>cs. detect_conflicts (load_timetable NaAsText (Some nan_raw)) = Inr cs \<and>
      (\<exists>c \<in> set cs. slot_of c = (''Nan'', ''09:00-10:00'', ''EB''))) \<and>
   (\<exists>cs. detect_conflicts (load_timetable NaAsText (Some nan_raw)) = Inr cs \<and>
      (\<exists>c \<in> set cs. slot_of c = (''Monday'', ''nan'', ''AB''))) \<and>
   (rows (load_timetable NaKept (Some nan_raw)) ! 0) ''Day'' = None \<and>
   row_key (rows (load_timetable NaKept (Some nan_raw)) ! 0) = None \<and>
   (rows (load_timetable NaKept (Some nan_raw)) ! 2) ''Time'' = None \<and>
   row_key (rows (load_timetable NaKept (Some nan_raw)) ! 2) = None"
proof -
  let ?L = "load_timetable NaAsText (Some nan_raw)"
  note t0 = missing_day_time_cells [OF nan_raw_facts(1) nan_raw_facts(2), of "\<lambda>p. None"]
  note t2 = missing_day_time_cells [OF nan_raw_facts(1) nan_raw_facts(3), of "\<lambda>p. None"]
  note c2 = conjunct2
  have d: "(rows ?L ! 0) ''Day'' = Some ''Nan'' \<and> ''Nan'' \<in> set (day_options ?L)"
    using t0 [THEN conjunct1] nan_raw_facts(4-6) by blast
  have t: "(rows ?L ! 2) ''Time'' = Some ''nan'' \<and> ''nan'' \<in> set (time_options ?L)"
    using t2 [THEN c2, THEN conjunct1] nan_raw_facts(7-9) by blast
  have qd: "\<exists>free occ. get_free_halls (\<lambda>p. None) ?L ''nan'' ''09'' = Inr (free, occ) \<and> ''EB'' \<in> set occ"
    using t0 [THEN c2, THEN c2, THEN conjunct1] d nan_loaded_facts(1-3,5-8) by blast
  have qt: "\<exists>free occ. get_free_halls (\<lambda>p. None) ?L ''monday'' ''nan'' = Inr (free, occ) \<and> ''AB'' \<in> set occ"
    using t2 [THEN c2, THEN c2, THEN c2, THEN conjunct1] t nan_loaded_facts(1-3,9,10) by blast
  have "(1::nat) \<noteq> 0" by simp
  then have cd: "\<exists>cs. detect_conflicts ?L = Inr cs \<and>
      (\<exists>c \<in> set cs. slot_of c = (''Nan'', ''09:00-10:00'', ''EB''))"
    using t0 [THEN c2, THEN c2, THEN c2, THEN c2, THEN conjunct1]
      nan_loaded_facts(1-4,11,12,15) by blast
  have "(3::nat) \<noteq> 2" by simp
  then have ct: "\<exists>cs. detect_conflicts ?L = Inr cs \<and>
      (\<exists>c \<in> set cs. slot_of c = (''Monday'', ''nan'', ''AB''))"
    using t2 [THEN c2, THEN c2, THEN c2, THEN c2, THEN conjunct1]
      nan_loaded_facts(1-4,13,14,16) by blast
  let ?K = "load_timetable NaKept (Some nan_raw)"
  have kd: "(rows ?K ! 0) ''Day'' = None \<and> row_key (rows ?K ! 0) = None"
    using t0 [THEN c2, THEN c2, THEN c2, THEN c2, THEN c2, THEN conjunct1]
      nan_raw_facts(4-6) by blast
  have kt: "(rows ?K ! 2) ''Time'' = None \<and> row_key (rows ?K ! 2) = None"
    using t2 [THEN c2, THEN c2, THEN c2, THEN c2, THEN c2, THEN c2]
      nan_raw_facts(7-9) by blast
  show ?thesis
    using nan_raw_facts d t qd qt cd ct kd kt by (intro conjI) (elim conjE, assumption)+
qed

theorem missing_cells_stay_missing:
  "map (\<lambda>r. (r ''Day'', r ''Time'', r ''Lecture Hall''))
     (rows (load_timetable NaKept (Some nan_raw))) =
     [(None, Some ''09:00-10:00'', Some ''EB''), (None, Some ''09:00-10:00'', Some ''EB''),
      (Some ''Monday'', None, Some ''AB''), (Some ''Monday'', None, Some ''AB'')] \<and>
   day_options (load_timetable NaKept (Some nan_raw)) = [''Monday''] \<and>
   time_options (load_timetable NaKept (Some nan_raw)) = [''09:00-10:00''] \<and>
   get_free_halls (\<lambda>p. None) (load_timetable NaKept (Some nan_raw)) ''nan'' ''09'' =
     Inr ([''AB'', ''EB''], []) \<and>
   get_free_halls (\<lambda>p. None) (load_timetable NaKept (Some nan_raw)) ''monday'' ''nan'' =
     Inr ([''AB'', ''EB''], []) \<and>
   detect_conflicts (load_timetable NaKept (Some nan_raw)) = Inr []"
  by code_simp


section \<open>Hall names\<close>

lemma str_replace_no_occurrence:
  "old \<noteq> [] \<Longrightarrow> \<not> sublist old s \<Longrightarrow> str_replace old new s = s"
proof (induction s)
  case Nil
  then show ?case by simp
next
  case (Cons c cs)
  then have "\<not> prefix old (c # cs)" "\<not> sublist old cs"
    by (simp_all add: sublist_Cons_right)
  with Cons show ?case by simp
qed

lemma set_str_replace: "old \<noteq> [] \<Longrightarrow> set (str_replace old new s) \<subseteq> set s \<union> set new"
proof (induction old new s rule: str_replace.induct)
  case (1 old new)
  then show ?case by simp
next
  case (2 old new c cs)
  show ?case
  proof (cases "prefix old (c # cs)")
    case True
    have "set (drop (length old) (c # cs)) \<subseteq> set (c # cs)"
      by (rule set_drop_subset)
    with 2 True show ?thesis by auto
  next
    case False
    with 2 show ?thesis by auto
  qed
qed

text \<open>
  The scan of \<open>str_replace\<close> keeps an invariant \<open>J l s\<close> of the text \<open>l\<close> written so far
  and the text \<open>s\<close> still to read.
\<close>

lemma str_replace_invariant:
  assumes "old \<noteq> []" and "J l s"
    and keep: "\<And>l c cs. J l (c # cs) \<Longrightarrow> \<not> prefix old (c # cs) \<Longrightarrow> J (l @ [c]) cs"
    and repl: "\<And>l s'. J l (old @ s') \<Longrightarrow> J (l @ new) s'"
  shows "J (l @ str_replace old new s) []"
  using assms(2)
proof (induction "length s" arbitrary: s l rule: less_induct)
  case less
  show ?case
  proof (cases s)
    case Nil
    with less.prems assms(1) show ?thesis by simp
  next
    case (Cons c cs)
    show ?thesis
    proof (cases "prefix old (c # cs)")
      case True
      then have split: "old @ drop (length old) (c # cs) = c # cs"
        by (metis append_eq_conv_conj prefix_def)
      have "J l (old @ drop (length old) (c # cs))"
        using less.prems by (simp only: split Cons)
      then have "J (l @ new) (drop (length old) (c # cs))" by (rule repl)
      moreover have "length (drop (length old) (c # cs)) < length s"
        using assms(1) Cons by (cases old) simp_all
      ultimately have "J ((l @ new) @ str_replace old new (drop (length old) (c # cs))) []"
        by (rule less.hyps [rotated])
      with True assms(1) Cons show ?thesis by simp
    next
      case False
      from less.prems Cons have "J l (c # cs)" by simp
      from keep [OF this False] have "J (l @ [c]) cs" .
      moreover have "length cs < length s" using Cons by simp
      ultimately have "J ((l @ [c]) @ str_replace old new cs) []"
        by (rule less.hyps [rotated])
      with False assms(1) Cons show ?thesis by simp
    qed
  qed
qed

text \<open>
  The invariant used below: \<open>Q\<close> holds of the whole text, and no occurrence of \<open>old\<close>
  starts in the part already written.
\<close>

lemma str_replace_removes:
  assumes "old \<noteq> []" and "Q s"
    and repl: "\<And>l s'. Q (l @ old @ s') \<Longrightarrow>
        (\<forall>l2. l2 \<noteq> [] \<and> suffix l2 l \<longrightarrow> \<not> prefix old (l2 @ old @ s')) \<Longrightarrow>
        Q (l @ new @ s') \<and> (\<forall>l2. l2 \<noteq> [] \<and> suffix l2 (l @ new) \<longrightarrow> \<not> prefix old (l2 @ s'))"
  shows "Q (str_replace old new s) \<and> \<not> sublist old (str_replace old new s)"
proof -
  define J where "J l s \<longleftrightarrow> Q (l @ s) \<and> (\<forall>l2. l2 \<noteq> [] \<and> suffix l2 l \<longrightarrow> \<not> prefix old (l2 @ s))"
    for l s
  have start: "J [] s"
    using assms(2) by (simp add: J_def)
  have keep: "J (l @ [c]) cs" if "J l (c # cs)" "\<not> prefix old (c # cs)" for l c cs
    unfolding J_def
  proof (intro conjI allI impI)
    show "Q ((l @ [c]) @ cs)" using that(1) by (simp add: J_def)
  next
    fix l2 assume l2: "l2 \<noteq> [] \<and> suffix l2 (l @ [c])"
    then obtain zs where zs: "l2 = zs @ [c]" "suffix zs l" by auto
    show "\<not> prefix old (l2 @ cs)"
    proof (cases "zs = []")
      case True
      with zs that(2) show ?thesis by simp
    next
      case False
      with that(1) zs(2) have "\<not> prefix old (zs @ c # cs)" by (simp add: J_def)
      with zs show ?thesis by simp
    qed
  qed
  have step: "J (l @ new) s'" if "J l (old @ s')" for l s'
    using repl [of l s'] that by (simp add: J_def)
  have "J ([] @ str_replace old new s) []"
    by (rule str_replace_invariant [where J = J, OF assms(1) start keep step])
  then have fin: "Q (str_replace old new s)"
    "\<And>l2. l2 \<noteq> [] \<Longrightarrow> suffix l2 (str_replace old new s) \<Longrightarrow> \<not> prefix old l2"
    by (simp_all add: J_def)
  have "\<not> sublist old (str_replace old new s)"
  proof
    assume "sublist old (str_replace old new s)"
    then obtain ys where ys: "suffix ys (str_replace old new s)" "prefix old ys"
      by (auto simp: sublist_altdef')
    with assms(1) have "ys \<noteq> []" by auto
    with fin(2) ys show False by blast
  qed
  with fin(1) show ?thesis by simp
qed

lemma sublist_append_cases:
  assumes "sublist p (u @ v)"
  shows "sublist p u \<or> sublist p v \<or>
    (\<exists>p1 p2. p = p1 @ p2 \<and> p1 \<noteq> [] \<and> p2 \<noteq> [] \<and> suffix p1 u \<and> prefix p2 v)"
proof -
  from assms have "sublist p u \<or> sublist p v \<or>
      (\<exists>p1 p2. p = p1 @ p2 \<and> suffix p1 u \<and> prefix p2 v)"
    by (simp only: sublist_append)
  then show ?thesis
  proof (elim disjE exE conjE)
    fix p1 p2 assume *: "p = p1 @ p2" "suffix p1 u" "prefix p2 v"
    show ?thesis
    proof (cases "p1 = [] \<or> p2 = []")
      case True
      with * show ?thesis by auto
    next
      case False
      with * show ?thesis by blast
    qed
  qed simp_all
qed

lemma sublist_appendI1: "sublist p u \<Longrightarrow> sublist p (u @ v)"
  by (simp add: sublist_append)

lemma sublist_appendI2: "sublist p v \<Longrightarrow> sublist p (u @ v)"
  by (simp add: sublist_append)

text \<open>Taking one character out of a text brings in no factor that cannot straddle the gap.\<close>

lemma delete_after:
  assumes "x \<notin> set (butlast p)" and "\<not> sublist p (l @ x # d # v)"
  shows "\<not> sublist p (l @ x # v)"
proof
  assume "sublist p (l @ x # v)"
  then have "sublist p ((l @ [x]) @ v)" by simp
  from sublist_append_cases [OF this]
  consider "sublist p (l @ [x])" | "sublist p v"
    | p1 p2 where "p = p1 @ p2" "suffix p1 (l @ [x])" "prefix p2 v" "p1 \<noteq> []" "p2 \<noteq> []"
    by blast
  then show False
  proof cases
    case 1
    then have "sublist p ((l @ [x]) @ d # v)" by (rule sublist_appendI1)
    with assms(2) show False by simp
  next
    case 2
    then have "sublist p (d # v)" by (simp add: sublist_Cons_right)
    then have "sublist p ((l @ [x]) @ d # v)" by (rule sublist_appendI2)
    with assms(2) show False by simp
  next
    case 3
    from 3(2,4) have "last p1 = x" by auto
    moreover from 3(1,5) have "butlast p = p1 @ butlast p2" by (simp add: butlast_append)
    ultimately have "x \<in> set (butlast p)" using 3(4) by (metis UnCI last_in_set set_append)
    with assms(1) show False by simp
  qed
qed

lemma delete_before:
  assumes "y \<notin> set (tl p)" and "\<not> sublist p (l @ d # y # v)"
  shows "\<not> sublist p (l @ y # v)"
proof
  assume "sublist p (l @ y # v)"
  from sublist_append_cases [OF this]
  consider "sublist p l" | "sublist p (y # v)"
    | p1 p2 where "p = p1 @ p2" "suffix p1 l" "prefix p2 (y # v)" "p1 \<noteq> []" "p2 \<noteq> []"
    by blast
  then show False
  proof cases
    case 1
    then have "sublist p (l @ d # y # v)" by (rule sublist_appendI1)
    with assms(2) show False by simp
  next
    case 2
    then have "sublist p (d # y # v)" by (simp add: sublist_Cons_right)
    then have "sublist p (l @ d # y # v)" by (rule sublist_appendI2)
    with assms(2) show False by simp
  next
    case 3
    from 3(3,5) have "hd p2 = y" by (cases p2) auto
    moreover from 3(1,4) have "tl p = tl p1 @ p2" by (cases p1) auto
    ultimately have "y \<in> set (tl p)" using 3(5) by (metis UnCI hd_in_set set_append)
    with assms(1) show False by simp
  qed
qed

lemma prefix_long_context:
  assumes "length old \<le> length zs"
  shows "prefix old (zs @ a) \<longleftrightarrow> prefix old zs"
proof
  assume "prefix old (zs @ a)"
  then have "prefix old zs \<or> (\<exists>us. old = zs @ us \<and> prefix us a)"
    by (simp only: prefix_append)
  then show "prefix old zs"
  proof
    assume "\<exists>us. old = zs @ us \<and> prefix us a"
    then obtain us where us: "old = zs @ us" by blast
    with assms have "us = []" by simp
    with us show ?thesis by simp
  qed
next
  assume "prefix old zs"
  then show "prefix old (zs @ a)" by (rule prefix_prefix)
qed

lemma no_occurrence_after_replace:
  assumes hyp: "\<forall>l2. l2 \<noteq> [] \<and> suffix l2 l \<longrightarrow> \<not> prefix old (l2 @ old @ s')"
    and tail: "\<And>l2. l2 \<noteq> [] \<Longrightarrow> suffix l2 new \<Longrightarrow> \<not> prefix old (l2 @ s')"
    and short: "\<And>zs. zs \<noteq> [] \<Longrightarrow> suffix zs l \<Longrightarrow> length zs < length old \<Longrightarrow>
        \<not> prefix old (zs @ new @ s')"
  shows "\<forall>l2. l2 \<noteq> [] \<and> suffix l2 (l @ new) \<longrightarrow> \<not> prefix old (l2 @ s')"
proof (intro allI impI)
  fix l2 assume l2: "l2 \<noteq> [] \<and> suffix l2 (l @ new)"
  then have "suffix l2 new \<or> (\<exists>zs. l2 = zs @ new \<and> suffix zs l)"
    by (simp only: suffix_append)
  then consider "suffix l2 new" | zs where "l2 = zs @ new" "suffix zs l" "zs \<noteq> []"
  proof (elim disjE exE conjE)
    fix zs assume zs: "l2 = zs @ new" "suffix zs l"
    assume r1: "suffix l2 new \<Longrightarrow> thesis"
      and r2: "\<And>zs. l2 = zs @ new \<Longrightarrow> suffix zs l \<Longrightarrow> zs \<noteq> [] \<Longrightarrow> thesis"
    show thesis
    proof (cases "zs = []")
      case True
      with zs have "suffix l2 new" by simp
      then show ?thesis by (rule r1)
    next
      case False
      with zs show ?thesis by (intro r2)
    qed
  qed
  then show "\<not> prefix old (l2 @ s')"
  proof cases
    case 1
    with l2 show ?thesis by (intro tail) simp_all
  next
    case 2
    show ?thesis
    proof (cases "length zs < length old")
      case True
      with 2 show ?thesis by (simp add: short)
    next
      case False
      then have "prefix old (zs @ new @ s') \<longleftrightarrow> prefix old (zs @ old @ s')"
        by (simp add: prefix_long_context)
      with hyp 2 show ?thesis by simp
    qed
  qed
qed

lemma replace_open_paren:
  assumes "\<not> sublist ''  '' s"
  shows "\<not> sublist ''  '' (str_replace ''( '' ''('' s) \<and>
         \<not> sublist ''( '' (str_replace ''( '' ''('' s)"
proof (rule str_replace_removes [where Q = "\<lambda>t. \<not> sublist ''  '' t"])
  show "''( '' \<noteq> []" by simp
  show "\<not> sublist ''  '' s" by fact
next
  fix l s'
  assume q: "\<not> sublist ''  '' (l @ ''( '' @ s')"
    and hyp: "\<forall>l2. l2 \<noteq> [] \<and> suffix l2 l \<longrightarrow> \<not> prefix ''( '' (l2 @ ''( '' @ s')"
  have "\<not> sublist ''  '' (l @ ''('' @ s')"
    using delete_after [of "CHR ''(''" "''  ''" l "CHR '' ''" s'] q by simp
  moreover have "\<forall>l2. l2 \<noteq> [] \<and> suffix l2 (l @ ''('') \<longrightarrow> \<not> prefix ''( '' (l2 @ s')"
  proof (rule no_occurrence_after_replace [OF hyp])
    fix l2 :: string assume "l2 \<noteq> []" "suffix l2 ''(''"
    then have l2: "l2 = ''(''" by (auto simp: suffix_Cons)
    show "\<not> prefix ''( '' (l2 @ s')"
    proof
      assume "prefix ''( '' (l2 @ s')"
      with l2 obtain s'' where "s' = CHR '' '' # s''" by (cases s') auto
      then have "sublist ''  '' (l @ ''( '' @ s')"
        by (simp add: sublist_append sublist_Cons_right)
      with q show False ..
    qed
  next
    fix zs :: string assume "zs \<noteq> []" "suffix zs l" "length zs < length ''( ''"
    then obtain z where "zs = [z]" by (cases zs) auto
    then show "\<not> prefix ''( '' (zs @ ''('' @ s')" by simp
  qed
  ultimately show "\<not> sublist ''  '' (l @ ''('' @ s') \<and>
      (\<forall>l2. l2 \<noteq> [] \<and> suffix l2 (l @ ''('') \<longrightarrow> \<not> prefix ''( '' (l2 @ s'))"
    by simp
qed

lemma replace_close_paren:
  assumes "\<not> sublist ''  '' s \<and> \<not> sublist ''( '' s"
  shows "(\<not> sublist ''  '' (str_replace '' )'' '')'' s) \<and>
          \<not> sublist ''( '' (str_replace '' )'' '')'' s)) \<and>
         \<not> sublist '' )'' (str_replace '' )'' '')'' s)"
proof (rule str_replace_removes [where Q = "\<lambda>t. \<not> sublist ''  '' t \<and> \<not> sublist ''( '' t"])
  show "'' )'' \<noteq> []" by simp
  show "\<not> sublist ''  '' s \<and> \<not> sublist ''( '' s" by fact
next
  fix l s'
  assume q: "\<not> sublist ''  '' (l @ '' )'' @ s') \<and> \<not> sublist ''( '' (l @ '' )'' @ s')"
    and hyp: "\<forall>l2. l2 \<noteq> [] \<and> suffix l2 l \<longrightarrow> \<not> prefix '' )'' (l2 @ '' )'' @ s')"
  have "\<not> sublist ''  '' (l @ '')'' @ s')"
    using delete_before [of "CHR '')''" "''  ''" l "CHR '' ''" s'] q by simp
  moreover have "\<not> sublist ''( '' (l @ '')'' @ s')"
    using delete_before [of "CHR '')''" "''( ''" l "CHR '' ''" s'] q by simp
  moreover have "\<forall>l2. l2 \<noteq> [] \<and> suffix l2 (l @ '')'') \<longrightarrow> \<not> prefix '' )'' (l2 @ s')"
  proof (rule no_occurrence_after_replace [OF hyp])
    fix l2 :: string assume "l2 \<noteq> []" "suffix l2 '')''"
    then have "l2 = '')''" by (auto simp: suffix_Cons)
    then show "\<not> prefix '' )'' (l2 @ s')" by simp
  next
    fix zs :: string assume zs: "zs \<noteq> []" "suffix zs l" "length zs < length '' )''"
    then obtain z where z: "zs = [z]" by (cases zs) auto
    show "\<not> prefix '' )'' (zs @ '')'' @ s')"
    proof
      assume "prefix '' )'' (zs @ '')'' @ s')"
      with z have "z = CHR '' ''" by simp
      with zs(2) z obtain l0 where "l = l0 @ '' ''" by (auto simp: suffix_def)
      then have "sublist ''  '' (l @ '' )'' @ s')"
        by (simp add: sublist_append sublist_Cons_right)
      with q show False by simp
    qed
  qed
  ultimately show "(\<not> sublist ''  '' (l @ '')'' @ s') \<and> \<not> sublist ''( '' (l @ '')'' @ s')) \<and>
      (\<forall>l2. l2 \<noteq> [] \<and> suffix l2 (l @ '')'') \<longrightarrow> \<not> prefix '' )'' (l2 @ s'))"
    by simp
qed

lemma replace_letter_gap:
  assumes xy: "x \<noteq> CHR '' ''" "y \<noteq> CHR '' ''" "x \<noteq> y"
    and q: "Q s"
    and del: "\<And>l v. Q (l @ x # CHR '' '' # v) \<Longrightarrow> Q (l @ x # v)"
  shows "Q (str_replace [x, CHR '' '', y] [x, y] s) \<and>
         \<not> sublist [x, CHR '' '', y] (str_replace [x, CHR '' '', y] [x, y] s)"
proof (rule str_replace_removes [where Q = Q])
  show "[x, CHR '' '', y] \<noteq> []" by simp
  show "Q s" by fact
next
  fix l s'
  assume q: "Q (l @ [x, CHR '' '', y] @ s')"
    and hyp: "\<forall>l2. l2 \<noteq> [] \<and> suffix l2 l \<longrightarrow>
        \<not> prefix [x, CHR '' '', y] (l2 @ [x, CHR '' '', y] @ s')"
  have "Q (l @ [x, y] @ s')"
    using del [of l "y # s'"] q by simp
  moreover have "\<forall>l2. l2 \<noteq> [] \<and> suffix l2 (l @ [x, y]) \<longrightarrow>
      \<not> prefix [x, CHR '' '', y] (l2 @ s')"
  proof (rule no_occurrence_after_replace [OF hyp])
    fix l2 :: string assume "l2 \<noteq> []" "suffix l2 [x, y]"
    then have "l2 = [x, y] \<or> l2 = [y]" by (auto simp: suffix_Cons)
    with xy show "\<not> prefix [x, CHR '' '', y] (l2 @ s')" by auto
  next
    fix zs :: string assume zs: "zs \<noteq> []" "length zs < length [x, CHR '' '', y]"
    then obtain z zs' where z: "zs = z # zs'" by (cases zs) auto
    show "\<not> prefix [x, CHR '' '', y] (zs @ [x, y] @ s')"
    proof (cases zs')
      case Nil
      with z xy show ?thesis by simp
    next
      case (Cons z' zs'')
      with z zs(2) have "zs = [z, z']" by simp
      with xy show ?thesis by simp
    qed
  qed
  ultimately show "Q (l @ [x, y] @ s') \<and>
      (\<forall>l2. l2 \<noteq> [] \<and> suffix l2 (l @ [x, y]) \<longrightarrow> \<not> prefix [x, CHR '' '', y] (l2 @ s'))"
    by simp
qed

lemma replace_a_b:
  assumes "\<not> sublist ''  '' s \<and> \<not> sublist ''( '' s \<and> \<not> sublist '' )'' s"
  shows "(\<not> sublist ''  '' (str_replace ''A B'' ''AB'' s) \<and>
          \<not> sublist ''( '' (str_replace ''A B'' ''AB'' s) \<and>
          \<not> sublist '' )'' (str_replace ''A B'' ''AB'' s)) \<and>
         \<not> sublist ''A B'' (str_replace ''A B'' ''AB'' s)"
proof (rule replace_letter_gap
    [where Q = "\<lambda>t. \<not> sublist ''  '' t \<and> \<not> sublist ''( '' t \<and> \<not> sublist '' )'' t"])
  show "CHR ''A'' \<noteq> CHR '' ''" "CHR ''B'' \<noteq> CHR '' ''" "CHR ''A'' \<noteq> CHR ''B''" by simp_all
  show "\<not> sublist ''  '' s \<and> \<not> sublist ''( '' s \<and> \<not> sublist '' )'' s" by fact
next
  fix l v
  assume q: "\<not> sublist ''  '' (l @ CHR ''A'' # CHR '' '' # v) \<and>
      \<not> sublist ''( '' (l @ CHR ''A'' # CHR '' '' # v) \<and>
      \<not> sublist '' )'' (l @ CHR ''A'' # CHR '' '' # v)"
  have "\<not> sublist ''  '' (l @ CHR ''A'' # v)"
    using delete_after [of "CHR ''A''" "''  ''" l "CHR '' ''" v] q by simp
  moreover have "\<not> sublist ''( '' (l @ CHR ''A'' # v)"
    using delete_after [of "CHR ''A''" "''( ''" l "CHR '' ''" v] q by simp
  moreover have "\<not> sublist '' )'' (l @ CHR ''A'' # v)"
    using delete_after [of "CHR ''A''" "'' )''" l "CHR '' ''" v] q by simp
  ultimately show "\<not> sublist ''  '' (l @ CHR ''A'' # v) \<and>
      \<not> sublist ''( '' (l @ CHR ''A'' # v) \<and> \<not> sublist '' )'' (l @ CHR ''A'' # v)"
    by simp
qed

lemma replace_e_b:
  assumes "\<not> sublist ''  '' s \<and> \<not> sublist ''( '' s \<and> \<not> sublist '' )'' s \<and> \<not> sublist ''A B'' s"
  shows "(\<not> sublist ''  '' (str_replace ''E B'' ''EB'' s) \<and>
          \<not> sublist ''( '' (str_replace ''E B'' ''EB'' s) \<and>
          \<not> sublist '' )'' (str_replace ''E B'' ''EB'' s) \<and>
          \<not> sublist ''A B'' (str_replace ''E B'' ''EB'' s)) \<and>
         \<not> sublist ''E B'' (str_replace ''E B'' ''EB'' s)"
proof (rule replace_letter_gap
    [where Q = "\<lambda>t. \<not> sublist ''  '' t \<and> \<not> sublist ''( '' t \<and> \<not> sublist '' )'' t \<and>
       \<not> sublist ''A B'' t"])
  show "CHR ''E'' \<noteq> CHR '' ''" "CHR ''B'' \<noteq> CHR '' ''" "CHR ''E'' \<noteq> CHR ''B''" by simp_all
  show "\<not> sublist ''  '' s \<and> \<not> sublist ''( '' s \<and> \<not> sublist '' )'' s \<and> \<not> sublist ''A B'' s"
    by fact
next
  fix l v
  assume q: "\<not> sublist ''  '' (l @ CHR ''E'' # CHR '' '' # v) \<and>
      \<not> sublist ''( '' (l @ CHR ''E'' # CHR '' '' # v) \<and>
      \<not> sublist '' )'' (l @ CHR ''E'' # CHR '' '' # v) \<and>
      \<not> sublist ''A B'' (l @ CHR ''E'' # CHR '' '' # v)"
  have "\<not> sublist ''  '' (l @ CHR ''E'' # v)"
    using delete_after [of "CHR ''E''" "''  ''" l "CHR '' ''" v] q by simp
  moreover have "\<not> sublist ''( '' (l @ CHR ''E'' # v)"
    using delete_after [of "CHR ''E''" "''( ''" l "CHR '' ''" v] q by simp
  moreover have "\<not> sublist '' )'' (l @ CHR ''E'' # v)"
    using delete_after [of "CHR ''E''" "'' )''" l "CHR '' ''" v] q by simp
  moreover have "\<not> sublist ''A B'' (l @ CHR ''E'' # v)"
    using delete_after [of "CHR ''E''" "''A B''" l "CHR '' ''" v] q by simp
  ultimately show "\<not> sublist ''  '' (l @ CHR ''E'' # v) \<and>
      \<not> sublist ''( '' (l @ CHR ''E'' # v) \<and> \<not> sublist '' )'' (l @ CHR ''E'' # v) \<and>
      \<not> sublist ''A B'' (l @ CHR ''E'' # v)"
    by simp
qed

lemma upper_char_idem: "upper_char (upper_char c) = upper_char c"
  by (simp add: upper_char_def lower_letters_def upper_letters_def)

lemma upper_char_fixed:
  "upper_char (CHR '' '') = CHR '' ''" "upper_char (CHR ''('') = CHR ''(''"
  "upper_char (CHR '')'') = CHR '')''" "upper_char (CHR ''A'') = CHR ''A''"
  "upper_char (CHR ''B'') = CHR ''B''" "upper_char (CHR ''E'') = CHR ''E''"
  by (simp_all add: upper_char_def lower_letters_def upper_letters_def)

lemma is_space_blank: "is_space (CHR '' '')"
  by (simp add: is_space_def)

lemma not_space_fixed:
  "\<not> is_space (CHR ''('')" "\<not> is_space (CHR '')'')" "\<not> is_space (CHR ''A'')"
  "\<not> is_space (CHR ''B'')" "\<not> is_space (CHR ''E'')"
  by (simp_all add: is_space_def)

lemma str_upper_fixed: "(\<forall>c \<in> set s. upper_char c = c) \<Longrightarrow> str_upper s = s"
  by (simp add: str_upper_def map_idI)

lemma set_collapse_from:
  "c \<in> set (collapse_from b s) \<Longrightarrow> c = CHR '' '' \<or> (c \<in> set s \<and> \<not> is_space c)"
  by (induction b s rule: collapse_from.induct) (auto split: if_splits)

lemma collapse_from_single:
  "\<not> sublist ''  '' (collapse_from b s) \<and>
   (b \<longrightarrow> collapse_from b s = [] \<or> hd (collapse_from b s) \<noteq> CHR '' '')"
proof (induction b s rule: collapse_from.induct)
  case (1 in_run)
  then show ?case by simp
next
  case (2 in_run c cs)
  show ?case
  proof (cases "is_space c")
    case True
    with 2 have ih: "\<not> sublist ''  '' (collapse_from True cs)"
      "collapse_from True cs = [] \<or> hd (collapse_from True cs) \<noteq> CHR '' ''"
      by (cases in_run; simp)+
    show ?thesis
    proof (cases in_run)
      case True
      with \<open>is_space c\<close> ih show ?thesis by simp
    next
      case False
      from ih(2) have "\<not> prefix ''  '' (CHR '' '' # collapse_from True cs)"
        by (cases "collapse_from True cs") auto
      with False \<open>is_space c\<close> ih show ?thesis by (simp add: sublist_Cons_right)
    qed
  next
    case False
    then have "c \<noteq> CHR '' ''" using is_space_blank by auto
    with False 2 show ?thesis by (simp add: sublist_Cons_right)
  qed
qed

lemma collapse_from_fixed:
  assumes "\<forall>c \<in> set s. is_space c \<longrightarrow> c = CHR '' ''" "\<not> sublist ''  '' s"
    and "b \<longrightarrow> s = [] \<or> hd s \<noteq> CHR '' ''"
  shows "collapse_from b s = s"
  using assms
proof (induction b s rule: collapse_from.induct)
  case (1 in_run)
  then show ?case by simp
next
  case (2 in_run c cs)
  from "2.prems"(2) have tl: "\<not> sublist ''  '' cs" "\<not> prefix ''  '' (c # cs)"
    by (simp_all add: sublist_Cons_right)
  show ?case
  proof (cases "is_space c")
    case True
    with "2.prems"(1) have c: "c = CHR '' ''" by simp
    with "2.prems"(3) have nr: "\<not> in_run" by auto
    from tl(2) c have "cs = [] \<or> hd cs \<noteq> CHR '' ''" by (cases cs) auto
    with "2.IH"(2) [OF True nr] "2.prems"(1) tl(1) have "collapse_from True cs = cs" by simp
    with True nr c show ?thesis by simp
  next
    case False
    with "2.IH"(3) [OF False] "2.prems"(1) tl(1) have "collapse_from False cs = cs" by simp
    with False show ?thesis by simp
  qed
qed

lemma sublist_str_strip: "sublist (str_strip s) s"
proof -
  have "prefix (rev (dropWhile is_space (rev (dropWhile is_space s)))) (dropWhile is_space s)"
    by (metis suffix_dropWhile suffix_to_prefix rev_rev_ident)
  then have "sublist (str_strip s) (dropWhile is_space s)"
    by (simp add: str_strip_def)
  moreover have "sublist (dropWhile is_space s) s"
    by (simp add: suffix_dropWhile)
  ultimately show ?thesis by (rule sublist_order.order.trans)
qed

lemma str_strip_idem: "str_strip (str_strip s) = str_strip s"
proof -
  define a where "a = dropWhile is_space s"
  define b where "b = rev (dropWhile is_space (rev a))"
  have ab: "a = b @ rev (takeWhile is_space (rev a))"
    unfolding b_def by (metis rev_append rev_rev_ident takeWhile_dropWhile_id)
  have "dropWhile is_space b = b"
  proof (cases "b = []")
    case True
    then show ?thesis by simp
  next
    case False
    with ab have "hd b = hd a" "a \<noteq> []" by (metis hd_append2, auto)
    moreover have "\<not> is_space (hd a)" if "a \<noteq> []"
      using that unfolding a_def by (rule hd_dropWhile)
    ultimately show ?thesis by (simp add: dropWhile_eq_self_iff)
  qed
  moreover have "rev (dropWhile is_space (rev b)) = b"
    by (simp add: b_def)
  ultimately show ?thesis
    by (simp add: str_strip_def a_def b_def)
qed

lemma sublist_set_mono: "sublist xs ys \<Longrightarrow> set xs \<subseteq> set ys"
  by (auto simp: sublist_def)

lemma good_chars_replace:
  assumes "old \<noteq> []"
    and "\<forall>c \<in> set s. upper_char c = c \<and> (is_space c \<longrightarrow> c = CHR '' '')"
    and "\<forall>c \<in> set new. upper_char c = c \<and> (is_space c \<longrightarrow> c = CHR '' '')"
  shows "\<forall>c \<in> set (str_replace old new s). upper_char c = c \<and> (is_space c \<longrightarrow> c = CHR '' '')"
  using set_str_replace [OF assms(1), of new s] assms(2,3) by blast

lemma not_sublist_mono: "sublist t s \<Longrightarrow> \<not> sublist p s \<Longrightarrow> \<not> sublist p t"
  by (blast intro: sublist_order.order.trans)

lemma clean_hall_name_canonical:
  assumes "clean_hall_name (Some v) = Some t"
  shows "canonical_hall t"
proof -
  define u where "u = str_upper v"
  define w where "w = collapse_ws u"
  define x where "x = str_replace ''( '' ''('' w"
  define y where "y = str_replace '' )'' '')'' x"
  define z where "z = str_replace ''A B'' ''AB'' y"
  define z' where "z' = str_replace ''E B'' ''EB'' z"
  from assms have t: "t = str_strip z'"
    by (simp add: clean_hall_name_def Let_def u_def w_def x_def y_def z_def z'_def)
  let ?good = "\<lambda>c. upper_char c = c \<and> (is_space c \<longrightarrow> c = CHR '' '')"
  have "\<forall>c \<in> set u. upper_char c = c"
    by (simp add: u_def str_upper_def upper_char_idem)
  then have gw: "\<forall>c \<in> set w. ?good c"
    unfolding w_def collapse_ws_def using set_collapse_from [of _ False u] upper_char_fixed(1)
    by blast
  have gx: "\<forall>c \<in> set x. ?good c"
    unfolding x_def by (rule good_chars_replace [OF _ gw]) (simp_all add: upper_char_fixed not_space_fixed)
  have gy: "\<forall>c \<in> set y. ?good c"
    unfolding y_def by (rule good_chars_replace [OF _ gx]) (simp_all add: upper_char_fixed not_space_fixed)
  have gz: "\<forall>c \<in> set z. ?good c"
    unfolding z_def by (rule good_chars_replace [OF _ gy]) (simp_all add: upper_char_fixed not_space_fixed)
  have gz': "\<forall>c \<in> set z'. ?good c"
    unfolding z'_def by (rule good_chars_replace [OF _ gz]) (simp_all add: upper_char_fixed not_space_fixed)
  have sub: "sublist t z'"
    unfolding t by (rule sublist_str_strip)
  then have gt: "\<forall>c \<in> set t. ?good c"
    using gz' sublist_set_mono by blast
  have fw: "\<not> sublist ''  '' w"
    unfolding w_def collapse_ws_def using collapse_from_single [of False u] by simp
  have fx: "\<not> sublist ''  '' x \<and> \<not> sublist ''( '' x"
    unfolding x_def by (rule replace_open_paren [OF fw])
  have fy: "\<not> sublist ''  '' y \<and> \<not> sublist ''( '' y \<and> \<not> sublist '' )'' y"
    unfolding y_def using replace_close_paren [OF fx] by blast
  have fz: "\<not> sublist ''  '' z \<and> \<not> sublist ''( '' z \<and> \<not> sublist '' )'' z \<and> \<not> sublist ''A B'' z"
    unfolding z_def using replace_a_b [OF fy] by blast
  have fz': "\<not> sublist ''  '' z' \<and> \<not> sublist ''( '' z' \<and> \<not> sublist '' )'' z' \<and>
      \<not> sublist ''A B'' z' \<and> \<not> sublist ''E B'' z'"
    unfolding z'_def using replace_e_b [OF fz] by blast
  have ft: "\<not> sublist ''  '' t \<and> \<not> sublist ''( '' t \<and> \<not> sublist '' )'' t \<and>
      \<not> sublist ''A B'' t \<and> \<not> sublist ''E B'' t"
    using fz' not_sublist_mono [OF sub] by blast
  have "str_strip t = t"
    unfolding t by (rule str_strip_idem)
  with gt ft show ?thesis
    unfolding canonical_hall_def by blast
qed

lemma clean_hall_name_fixed:
  assumes "canonical_hall t"
  shows "clean_hall_name (Some t) = Some t"
proof -
  from assms have good: "\<forall>c \<in> set t. upper_char c = c" "\<forall>c \<in> set t. is_space c \<longrightarrow> c = CHR '' ''"
    and f: "\<not> sublist ''  '' t" "\<not> sublist ''( '' t" "\<not> sublist '' )'' t"
      "\<not> sublist ''A B'' t" "\<not> sublist ''E B'' t"
    and s: "str_strip t = t"
    unfolding canonical_hall_def by blast+
  have u: "str_upper t = t"
    by (rule str_upper_fixed [OF good(1)])
  have w: "collapse_ws t = t"
    unfolding collapse_ws_def by (rule collapse_from_fixed [OF good(2) f(1)]) simp
  have r: "str_replace ''( '' ''('' t = t" "str_replace '' )'' '')'' t = t"
    "str_replace ''A B'' ''AB'' t = t" "str_replace ''E B'' ''EB'' t = t"
    using f by (simp_all add: str_replace_no_occurrence)
  show ?thesis
    by (simp add: clean_hall_name_def Let_def u w r s)
qed

lemma clean_hall_name_example:
  "clean_hall_name (Some ''  lt ( a b )  '') = Some ''LT (AB)''"
  "clean_hall_name (clean_hall_name (Some ''  lt ( a b )  '')) = Some ''LT (AB)''"
  "clean_hall_name None = None"
  by code_simp+

text \<open>
  Claim C6. Cleaning a hall name twice gives what cleaning it once gives, for the missing
  value and for every text.
\<close>

theorem clean_hall_name_idempotent:
  "clean_hall_name (clean_hall_name name) = clean_hall_name name"
proof (cases name)
  case None
  then show ?thesis by (simp add: clean_hall_name_def)
next
  case (Some v)
  then obtain t where t: "clean_hall_name name = Some t"
    by (auto simp: clean_hall_name_def Let_def)
  with Some have "canonical_hall t" by (auto intro: clean_hall_name_canonical)
  then have "clean_hall_name (Some t) = Some t" by (rule clean_hall_name_fixed)
  with t show ?thesis by simp
qed

end
